theory Spec2Isabelle
  imports Main "HOL-Library.Word"
begin

section \<open>The quickfix input of bento: shared engine handles and the event bridge\<close>

text \<open>
  The development follows \<^verbatim>\<open>internal/impl/quickfix/fixapp.go\<close> and
  \<^verbatim>\<open>internal/impl/quickfix/input.go\<close>. Objects of the quickfix library (acceptors,
  initiators, settings, open files) are opaque references; what the library and the
  operating system answer is collected in a record of functions, \<open>env\<close>, that every
  operation takes as its first argument. Mutable Go objects live in a \<open>world\<close> that is
  passed through every operation; calls into an engine and the closing of a channel are
  appended to the world's \<open>calls\<close>, so that the order of effects can be read off.
\<close>

subsection \<open>Values of the Go program\<close>

type_synonym byte = "8 word"
type_synonym addr = nat
type_synonym acceptor = nat
type_synonym initiator = nat
type_synonym Settings = nat
type_synonym os_File = nat
type_synonym Application = nat
type_synonym chan = nat
type_synonym maddr = nat
type_synonym baddr = nat
type_synonym DataDictionary = nat
type_synonym SessionSettings = nat

text \<open>
  Go's \<^verbatim>\<open>error\<close> values. \<open>LibErr\<close> is an error made by the library, the operating
  system or a context; the others are the ones the two files build themselves.
\<close>

datatype error =
    LibErr string
  | FailedToOpenConfigFile error
  | FailedToParseSettings error
  | CannotStartUninitializedFixapp
  | CannotCreateMessageStore string
  | CannotCreateLogger string
  | ErrNotConnected
  | ErrEndOfInput

text \<open>A Go run-time panic, and a goroutine that never proceeds.\<close>

datatype panic =
    NilDereference
  | AssignmentToEntryInNilMap
  | SendOnClosedChannel
  | CloseOfNilChannel
  | CloseOfClosedChannel

datatype 'a outcome = Returns 'a | Panics panic | BlocksForever

text \<open>The string types of \<^verbatim>\<open>fixapp.go\<close> and their constants.\<close>

type_synonym fixAppType = string
type_synonym logFactoryType = string
type_synonym messageStoreType = string

definition acceptorType :: fixAppType where "acceptorType = ''acceptor''"
definition initiatorType :: fixAppType where "initiatorType = ''initiator''"
definition logFactoryFile :: logFactoryType where "logFactoryFile = ''file''"
definition logFactoryScreen :: logFactoryType where "logFactoryScreen = ''screen''"
definition messageStoreMem :: messageStoreType where "messageStoreMem = ''memory''"
definition messageStoreFile :: messageStoreType where "messageStoreFile = ''file''"

type_synonym fixappState = string

definition fixappstatestarted :: fixappState where "fixappstatestarted = ''started''"
definition fixappstatestopped :: fixappState where "fixappstatestopped = ''stopped''"

text \<open>
  The handle. \<^verbatim>\<open>refcount\<close> is a Go \<^verbatim>\<open>int\<close>: a signed machine word of 32 bits on
  the arm builds and of 64 bits on amd64 and arm64. The field has the type parameter
  \<open>'int\<close>, and every operation below takes it as \<open>'w word\<close> for an arbitrary width,
  with wrapping \<open>+\<close> and \<open>-\<close> and the signed comparison \<open><s\<close>.
\<close>

record 'int fixapp =
  chksum :: "byte list"
  acceptor :: "acceptor option"
  initiator :: "initiator option"
  state :: fixappState
  refcount :: "'int"

datatype MessageStoreFactory = MemoryStoreFactory | FileStoreFactory Settings

datatype LogFactory = FileLogFactory nat | ScreenLogFactory

text \<open>What is observable of the library: calls into an engine, and closing a channel.\<close>

datatype call =
    AcceptorStart acceptor
  | AcceptorStop acceptor
  | InitiatorStart initiator
  | InitiatorStop initiator
  | ChanClose chan

text \<open>
  \<^verbatim>\<open>quickfix.SessionID\<close> is a struct of the library with eight string fields; its zero
  value has every field empty. A \<^verbatim>\<open>quickfix.Message\<close> is handled through pointers
  only. Its content is a list of fields, each a tag and a reference to the bytes of its
  value: a Go byte slice refers to memory that another slice, of another message, may
  refer to as well. The bytes live in the world's \<open>buffers\<close>; \<open>Fields\<close> is what a
  reader of a message sees, every reference replaced by the bytes it refers to.
\<close>

record SessionID =
  BeginString :: string
  TargetCompID :: string
  TargetSubID :: string
  TargetLocationID :: string
  SenderCompID :: string
  SenderSubID :: string
  SenderLocationID :: string
  Qualifier :: string

definition zeroSessionID :: SessionID where
  "zeroSessionID =
     \<lparr>BeginString = [], TargetCompID = [], TargetSubID = [], TargetLocationID = [],
      SenderCompID = [], SenderSubID = [], SenderLocationID = [], Qualifier = []\<rparr>"

type_synonym Message = "(nat \<times> baddr) list"
type_synonym Fields = "(nat \<times> byte list) list"

text \<open>The string type \<^verbatim>\<open>quickfixEventType\<close> of \<^verbatim>\<open>input.go\<close> and its constants.\<close>

type_synonym quickfixEventType = string

definition createEvent :: quickfixEventType where "createEvent = ''create''"
definition logonEvent :: quickfixEventType where "logonEvent = ''logon''"
definition logoutEvent :: quickfixEventType where "logoutEvent = ''logout''"
definition toAdminEvent :: quickfixEventType where "toAdminEvent = ''to_admin''"
definition toAppEvent :: quickfixEventType where "toAppEvent = ''to_app''"
definition fromAdminEvent :: quickfixEventType where "fromAdminEvent = ''from_admin''"
definition fromAppEvent :: quickfixEventType where "fromAppEvent = ''from_app''"

record quickfixEvent =
  sessionId :: SessionID
  eventType :: quickfixEventType
  message :: "maddr option"

text \<open>
  An unbuffered channel. A send blocks until a receiver takes the value: \<open>sending\<close>
  holds the events of the goroutines that are blocked in a send, the oldest first.
\<close>

record chan_state =
  closed :: bool
  sending :: "quickfixEvent list"

subsection \<open>The environment: the operating system and the quickfix library\<close>

text \<open>
  \<open>io_ReadAll\<close> answers as Go's does: the bytes read so far and, when reading failed,
  an error. \<open>quickfix_NewAcceptor\<close> and \<open>quickfix_NewInitiator\<close> return Go's pair of a
  pointer, which may be nil, and an error, which may be nil. \<open>Message_CopyInto bs m to\<close>
  is \<^verbatim>\<open>m.CopyInto(to)\<close> in the buffers \<open>bs\<close>: the content of \<^verbatim>\<open>to\<close> afterwards and
  the buffers afterwards. Whether the copy refers to the buffers of \<^verbatim>\<open>m\<close> or to new
  ones is the library's affair and is left open. \<open>Message_ToJSON\<close> takes what its
  receiver lets it read, \<open>None\<close> for a nil pointer, and may panic.
\<close>

record env =
  sha256_Sum :: "byte list \<Rightarrow> byte list"
  os_Open :: "string \<Rightarrow> error + os_File"
  io_ReadAll :: "os_File \<Rightarrow> byte list \<times> error option"
  filepath_Abs :: "string \<Rightarrow> error + string"
  quickfix_ParseSettings :: "os_File \<Rightarrow> error + Settings"
  filelog_NewLogFactory :: "Settings \<Rightarrow> error + LogFactory"
  quickfix_NewAcceptor ::
    "Application \<Rightarrow> MessageStoreFactory \<Rightarrow> Settings \<Rightarrow> LogFactory \<Rightarrow> acceptor option \<times> error option"
  quickfix_NewInitiator ::
    "Application \<Rightarrow> MessageStoreFactory \<Rightarrow> Settings \<Rightarrow> LogFactory \<Rightarrow> initiator option \<times> error option"
  acceptor_Start :: "acceptor \<Rightarrow> error option"
  initiator_Start :: "initiator \<Rightarrow> error option"
  quickfix_NewMessage :: Message
  Message_CopyInto :: "byte list list \<Rightarrow> Message \<Rightarrow> Message \<Rightarrow> Message \<times> byte list list"
  Message_ToJSON :: "Fields option \<Rightarrow> bool \<Rightarrow> DataDictionary option \<Rightarrow> byte list outcome"
  SessionID_String :: "SessionID \<Rightarrow> string"
  Settings_SessionSettings :: "Settings \<Rightarrow> SessionID \<rightharpoonup> SessionSettings"
  SessionSettings_HasSetting :: "SessionSettings \<Rightarrow> string \<Rightarrow> bool"
  SessionSettings_Setting :: "SessionSettings \<Rightarrow> string \<Rightarrow> error + string"
  datadictionary_Parse :: "string \<Rightarrow> error + DataDictionary"

subsection \<open>The world: the registry and the heaps\<close>

text \<open>
  \<^verbatim>\<open>fixappstore\<close> maps \<^verbatim>\<open>string(chk)\<close> to a pointer to a handle. Pointers are
  indices into the list \<open>fixapps\<close> of allocated handles; allocating appends to it.
  Channels, messages and byte buffers are allocated in the same way. A Go pointer is nil or refers
  to an allocated object; an index beyond the list stands for no object and is treated
  as nil.
\<close>

record 'int world =
  fixappstore :: "byte list \<rightharpoonup> addr"
  fixapps :: "'int fixapp list"
  calls :: "call list"
  chans :: "chan_state list"
  messages :: "Message list"
  buffers :: "byte list list"

subsection \<open>\<^verbatim>\<open>fixapp.go\<close>\<close>

definition GetSettings :: "env \<Rightarrow> string \<Rightarrow> error + Settings" where
  "GetSettings E configFile =
     (case filepath_Abs E configFile of
        Inl err \<Rightarrow> Inl err
      | Inr configPath \<Rightarrow>
          (case os_Open E configPath of
             Inl err \<Rightarrow> Inl (FailedToOpenConfigFile err)
           | Inr c \<Rightarrow>
               (case quickfix_ParseSettings E c of
                  Inl err \<Rightarrow> Inl (FailedToParseSettings err)
                | Inr s \<Rightarrow> Inr s)))"

text \<open>
  \<^verbatim>\<open>createChecksum\<close> assigns the error of \<^verbatim>\<open>io.ReadAll\<close> to \<^verbatim>\<open>err\<close> and never
  looks at it: the bytes that were read are hashed and the error returned is nil.
\<close>

definition createChecksum :: "env \<Rightarrow> string \<Rightarrow> error + byte list" where
  "createChecksum E configPath =
     (case os_Open E configPath of
        Inl err \<Rightarrow> Inl (FailedToOpenConfigFile err)
      | Inr c \<Rightarrow> (case io_ReadAll E c of (t, err) \<Rightarrow> Inr (sha256_Sum E t)))"

definition createMessageStoreFactory ::
  "messageStoreType \<Rightarrow> Settings \<Rightarrow> error + MessageStoreFactory" where
  "createMessageStoreFactory t s =
     (if t = messageStoreMem then Inr MemoryStoreFactory
      else if t = messageStoreFile then Inr (FileStoreFactory s)
      else Inl (CannotCreateMessageStore t))"

definition createLogFactory :: "env \<Rightarrow> logFactoryType \<Rightarrow> Settings \<Rightarrow> error + LogFactory" where
  "createLogFactory E t s =
     (if t = logFactoryFile then filelog_NewLogFactory E s
      else if t = logFactoryScreen then Inr ScreenLogFactory
      else Inl (CannotCreateLogger t))"

text \<open>
  The \<^verbatim>\<open>switch appType\<close> of \<^verbatim>\<open>GetOrCreateFixApp\<close> has no default case: for any
  other string neither engine is built, \<^verbatim>\<open>err\<close> is still nil, and the handle is
  registered without an engine. The handle \<^verbatim>\<open>f\<close> is a local value until it is stored;
  when the function fails before that, nothing refers to it.
\<close>

definition newEngine ::
  "env \<Rightarrow> fixAppType \<Rightarrow> Application \<Rightarrow> MessageStoreFactory \<Rightarrow> Settings \<Rightarrow> LogFactory \<Rightarrow>
   'int fixapp \<Rightarrow> 'int fixapp \<times> error option" where
  "newEngine E appType app store s log f =
     (if appType = acceptorType then
        (case quickfix_NewAcceptor E app store s log of (a, err) \<Rightarrow> (f\<lparr>acceptor := a\<rparr>, err))
      else if appType = initiatorType then
        (case quickfix_NewInitiator E app store s log of (i, err) \<Rightarrow> (f\<lparr>initiator := i\<rparr>, err))
      else (f, None))"

definition GetOrCreateFixApp ::
  "env \<Rightarrow> fixAppType \<Rightarrow> messageStoreType \<Rightarrow> logFactoryType \<Rightarrow> Application \<Rightarrow> string \<Rightarrow>
   'w::len word world \<Rightarrow> (error + addr) \<times> 'w word world" where
  "GetOrCreateFixApp E appType msgStore logType app configFile w =
     (case createChecksum E configFile of
        Inl err \<Rightarrow> (Inl err, w)
      | Inr chk \<Rightarrow>
          (case fixappstore w chk of
             Some a \<Rightarrow> (Inr a, w)
           | None \<Rightarrow>
               (case GetSettings E configFile of
                  Inl err \<Rightarrow> (Inl err, w)
                | Inr s \<Rightarrow>
                    (case createMessageStoreFactory msgStore s of
                       Inl err \<Rightarrow> (Inl err, w)
                     | Inr store \<Rightarrow>
                         (case createLogFactory E logType s of
                            Inl err \<Rightarrow> (Inl err, w)
                          | Inr log \<Rightarrow>
                              (case newEngine E appType app store s log
                                      \<lparr>chksum = chk, acceptor = None, initiator = None,
                                       state = fixappstatestopped, refcount = 0\<rparr> of
                                 (f, Some err) \<Rightarrow> (Inl err, w)
                               | (f, None) \<Rightarrow>
                                   (Inr (length (fixapps w)),
                                    w\<lparr>fixappstore := (fixappstore w)(chk \<mapsto> length (fixapps w)),
                                      fixapps := fixapps w @ [f]\<rparr>)))))))"

text \<open>
  \<^verbatim>\<open>Start\<close> and \<^verbatim>\<open>Stop\<close> on the handle itself: the new handle, the error returned
  (for \<^verbatim>\<open>Start\<close>) and the calls made into the engine.
\<close>

definition fixapp_Start ::
  "env \<Rightarrow> 'w::len word fixapp \<Rightarrow> error option \<times> 'w word fixapp \<times> call list" where
  "fixapp_Start E f =
     (if state f \<noteq> fixappstatestarted then
        (case acceptor f of
           Some a \<Rightarrow>
             (acceptor_Start E a,
              f\<lparr>state := fixappstatestarted, refcount := refcount f + 1\<rparr>, [AcceptorStart a])
         | None \<Rightarrow>
             (case initiator f of
                Some i \<Rightarrow>
                  (initiator_Start E i,
                   f\<lparr>state := fixappstatestarted, refcount := refcount f + 1\<rparr>, [InitiatorStart i])
              | None \<Rightarrow>
                  (Some CannotStartUninitializedFixapp,
                   f\<lparr>state := fixappstatestarted, refcount := refcount f + 1\<rparr>, [])))
      else (None, f\<lparr>refcount := refcount f + 1\<rparr>, []))"

definition fixapp_Stop :: "'w::len word fixapp \<Rightarrow> 'w word fixapp \<times> call list" where
  "fixapp_Stop f =
     (if state f = fixappstatestopped \<or> 1 <s refcount f then (f\<lparr>refcount := refcount f - 1\<rparr>, [])
      else
        (f\<lparr>acceptor := None, initiator := None\<rparr>,
         (case acceptor f of
            Some a \<Rightarrow> [AcceptorStop a]
          | None \<Rightarrow> (case initiator f of Some i \<Rightarrow> [InitiatorStop i] | None \<Rightarrow> []))))"

text \<open>The methods on a pointer: a pointer that refers to no handle is nil.\<close>

definition Start :: "env \<Rightarrow> addr \<Rightarrow> 'w::len word world \<Rightarrow> (error option \<times> 'w word world) outcome" where
  "Start E a w =
     (if a < length (fixapps w) then
        (case fixapp_Start E (fixapps w ! a) of
           (err, f', cs) \<Rightarrow> Returns (err, w\<lparr>fixapps := (fixapps w)[a := f'], calls := calls w @ cs\<rparr>))
      else Panics NilDereference)"

definition Stop :: "addr \<Rightarrow> 'w::len word world \<Rightarrow> 'w word world outcome" where
  "Stop a w =
     (if a < length (fixapps w) then
        (case fixapp_Stop (fixapps w ! a) of
           (f', cs) \<Rightarrow> Returns (w\<lparr>fixapps := (fixapps w)[a := f'], calls := calls w @ cs\<rparr>))
      else Panics NilDereference)"

subsection \<open>\<^verbatim>\<open>input.go\<close>: the adapter, its events and its channel\<close>

text \<open>
  The adapter. The fields \<^verbatim>\<open>log\<close> and \<^verbatim>\<open>nm\<close> are never read by the functions
  below, and the mutex \<^verbatim>\<open>mut\<close> only makes each method atomic; they are left out. A Go
  map that was never made is nil: \<open>None\<close>.
\<close>

record quickfixInput =
  appType :: fixAppType
  storeType :: messageStoreType
  logType :: logFactoryType
  config :: string
  settings :: Settings
  appDictionaries :: "(SessionID \<rightharpoonup> DataDictionary) option"
  transportDictionaries :: "(SessionID \<rightharpoonup> DataDictionary) option"
  eventChan :: "chan option"

text \<open>A message of the pipeline: its body and its metadata.\<close>

record service_Message =
  body :: "byte list"
  meta :: "string \<rightharpoonup> string"

text \<open>
  \<^verbatim>\<open>NewQuickfixEvent\<close> takes the session identifier \<^verbatim>\<open>id\<close> and does not use it: the
  struct literal it returns sets \<^verbatim>\<open>eventType\<close> and \<^verbatim>\<open>message\<close> only, so
  \<^verbatim>\<open>sessionId\<close> has its zero value. A message that is not nil is copied into a message
  allocated by \<^verbatim>\<open>quickfix.NewMessage()\<close>.
\<close>

definition NewQuickfixEvent ::
  "env \<Rightarrow> SessionID \<Rightarrow> quickfixEventType \<Rightarrow> maddr option \<Rightarrow> 'int world \<Rightarrow>
   (quickfixEvent \<times> 'int world) outcome" where
  "NewQuickfixEvent E sid t m w =
     (case m of
        None \<Rightarrow> Returns (\<lparr>sessionId = zeroSessionID, eventType = t, message = None\<rparr>, w)
      | Some p \<Rightarrow>
          (if p < length (messages w) then
             (case Message_CopyInto E (buffers w) (messages w ! p) (quickfix_NewMessage E) of
                (msg, bs) \<Rightarrow>
                  Returns
                    (\<lparr>sessionId = zeroSessionID, eventType = t,
                      message = Some (length (messages w))\<rparr>,
                     w\<lparr>messages := messages w @ [msg], buffers := bs\<rparr>))
           else Panics NilDereference))"

text \<open>
  \<^verbatim>\<open>q.eventChan <- event\<close>. A send on a nil channel blocks forever, a send on a closed
  channel panics; otherwise the sender waits in the channel until \<^verbatim>\<open>Read\<close> takes its
  event.
\<close>

definition send :: "chan option \<Rightarrow> quickfixEvent \<Rightarrow> 'int world \<Rightarrow> 'int world outcome" where
  "send ch ev w =
     (case ch of
        None \<Rightarrow> BlocksForever
      | Some c \<Rightarrow>
          (if c < length (chans w) then
             (if closed (chans w ! c) then Panics SendOnClosedChannel
              else
                Returns
                  (w\<lparr>chans := (chans w)[c := (chans w ! c)\<lparr>sending := sending (chans w ! c) @ [ev]\<rparr>]\<rparr>))
           else BlocksForever))"

text \<open>
  The two statements every callback ends with, or consists of: build the event and
  send it on the adapter's channel.
\<close>

definition push ::
  "env \<Rightarrow> quickfixInput \<Rightarrow> SessionID \<Rightarrow> quickfixEventType \<Rightarrow> maddr option \<Rightarrow> 'int world \<Rightarrow>
   'int world outcome" where
  "push E q sessionID t m w =
     (case NewQuickfixEvent E sessionID t m w of
        Returns (event, w') \<Rightarrow> send (eventChan q) event w'
      | Panics p \<Rightarrow> Panics p
      | BlocksForever \<Rightarrow> BlocksForever)"

subsection \<open>\<^verbatim>\<open>input.go\<close>: the seven callbacks\<close>

definition OnLogon :: "env \<Rightarrow> quickfixInput \<Rightarrow> SessionID \<Rightarrow> 'int world \<Rightarrow> 'int world outcome" where
  "OnLogon E q sessionID w = push E q sessionID logonEvent None w"

definition OnLogout :: "env \<Rightarrow> quickfixInput \<Rightarrow> SessionID \<Rightarrow> 'int world \<Rightarrow> 'int world outcome" where
  "OnLogout E q sessionID w = push E q sessionID logoutEvent None w"

definition ToAdmin ::
  "env \<Rightarrow> quickfixInput \<Rightarrow> maddr option \<Rightarrow> SessionID \<Rightarrow> 'int world \<Rightarrow> 'int world outcome" where
  "ToAdmin E q m sessionID w = push E q sessionID toAdminEvent m w"

definition ToApp ::
  "env \<Rightarrow> quickfixInput \<Rightarrow> maddr option \<Rightarrow> SessionID \<Rightarrow> 'int world \<Rightarrow> 'int world outcome" where
  "ToApp E q m sessionID w = push E q sessionID toAppEvent m w"

definition FromAdmin ::
  "env \<Rightarrow> quickfixInput \<Rightarrow> maddr option \<Rightarrow> SessionID \<Rightarrow> 'int world \<Rightarrow> 'int world outcome" where
  "FromAdmin E q m sessionID w = push E q sessionID fromAdminEvent m w"

definition FromApp ::
  "env \<Rightarrow> quickfixInput \<Rightarrow> maddr option \<Rightarrow> SessionID \<Rightarrow> 'int world \<Rightarrow> 'int world outcome" where
  "FromApp E q m sessionID w = push E q sessionID fromAppEvent m w"

text \<open>
  \<^verbatim>\<open>OnCreate\<close>. The session is looked up in a map of pointers; \<^verbatim>\<open>HasSetting\<close> reads
  through its receiver, so a session that is not in the map is a nil dereference. An
  assignment \<^verbatim>\<open>q.appDictionaries[sessionID] = dict\<close> into a nil map panics:
  \<open>assignDict\<close>. \<open>cacheDataDictionary\<close> and \<open>cacheTransportDataDictionary\<close> are the
  two \<^verbatim>\<open>if session.HasSetting(...)\<close> blocks of the function, in their order.
\<close>

definition assignDict ::
  "(SessionID \<rightharpoonup> DataDictionary) option \<Rightarrow> SessionID \<Rightarrow> DataDictionary \<Rightarrow>
   (SessionID \<rightharpoonup> DataDictionary) option outcome" where
  "assignDict mp sessionID dict =
     (case mp of
        None \<Rightarrow> Panics AssignmentToEntryInNilMap
      | Some d \<Rightarrow> Returns (Some (d(sessionID \<mapsto> dict))))"

definition cacheDataDictionary ::
  "env \<Rightarrow> quickfixInput \<Rightarrow> SessionSettings \<Rightarrow> SessionID \<Rightarrow> quickfixInput outcome" where
  "cacheDataDictionary E q session sessionID =
     (if SessionSettings_HasSetting E session ''DataDictionary'' then
        (case SessionSettings_Setting E session ''DataDictionary'' of
           Inl err \<Rightarrow> Returns q
         | Inr file \<Rightarrow>
             (case datadictionary_Parse E file of
                Inl err \<Rightarrow> Returns q
              | Inr dict \<Rightarrow>
                  (case assignDict (appDictionaries q) sessionID dict of
                     Returns ad \<Rightarrow>
                       (case assignDict (transportDictionaries q) sessionID dict of
                          Returns td \<Rightarrow>
                            Returns (q\<lparr>appDictionaries := ad, transportDictionaries := td\<rparr>)
                        | Panics p \<Rightarrow> Panics p
                        | BlocksForever \<Rightarrow> BlocksForever)
                   | Panics p \<Rightarrow> Panics p
                   | BlocksForever \<Rightarrow> BlocksForever)))
      else Returns q)"

definition cacheTransportDataDictionary ::
  "env \<Rightarrow> quickfixInput \<Rightarrow> SessionSettings \<Rightarrow> SessionID \<Rightarrow> quickfixInput outcome" where
  "cacheTransportDataDictionary E q session sessionID =
     (if SessionSettings_HasSetting E session ''TransportDataDictionary'' then
        (case SessionSettings_Setting E session ''TransportDataDictionary'' of
           Inl err \<Rightarrow> Returns q
         | Inr file \<Rightarrow>
             (case datadictionary_Parse E file of
                Inl err \<Rightarrow> Returns q
              | Inr dict \<Rightarrow>
                  (case assignDict (transportDictionaries q) sessionID dict of
                     Returns td \<Rightarrow> Returns (q\<lparr>transportDictionaries := td\<rparr>)
                   | Panics p \<Rightarrow> Panics p
                   | BlocksForever \<Rightarrow> BlocksForever)))
      else Returns q)"

definition OnCreate ::
  "env \<Rightarrow> quickfixInput \<Rightarrow> SessionID \<Rightarrow> 'int world \<Rightarrow> (quickfixInput \<times> 'int world) outcome" where
  "OnCreate E q sessionID w =
     (case Settings_SessionSettings E (settings q) sessionID of
        None \<Rightarrow> Panics NilDereference
      | Some session \<Rightarrow>
          (case cacheDataDictionary E q session sessionID of
             Returns q1 \<Rightarrow>
               (case cacheTransportDataDictionary E q1 session sessionID of
                  Returns q2 \<Rightarrow>
                    (case push E q2 sessionID createEvent None w of
                       Returns w' \<Rightarrow> Returns (q2, w')
                     | Panics p \<Rightarrow> Panics p
                     | BlocksForever \<Rightarrow> BlocksForever)
                | Panics p \<Rightarrow> Panics p
                | BlocksForever \<Rightarrow> BlocksForever)
           | Panics p \<Rightarrow> Panics p
           | BlocksForever \<Rightarrow> BlocksForever))"

subsection \<open>\<^verbatim>\<open>input.go\<close>: the constructor, \<^verbatim>\<open>Connect\<close>, \<^verbatim>\<open>Read\<close> and \<^verbatim>\<open>Close\<close>\<close>

text \<open>
  The constructor reads four fields of the parsed configuration and the settings file.
  It does not make the two dictionary maps and leaves the channel nil.
\<close>

definition quickfixInputApplicationType :: string where
  "quickfixInputApplicationType = ''application_type''"
definition quickfixInputConfigFile :: string where
  "quickfixInputConfigFile = ''config_file''"
definition quickfixInputMsgStoreType :: string where
  "quickfixInputMsgStoreType = ''message_store_type''"
definition quickfixInputLoggerType :: string where
  "quickfixInputLoggerType = ''logger_type''"

definition quickfixInputFromParsed ::
  "env \<Rightarrow> (string \<Rightarrow> error + string) \<Rightarrow> error + quickfixInput" where
  "quickfixInputFromParsed E conf_FieldString =
     (case conf_FieldString quickfixInputApplicationType of
        Inl err \<Rightarrow> Inl err
      | Inr appType' \<Rightarrow>
          (case conf_FieldString quickfixInputConfigFile of
             Inl err \<Rightarrow> Inl err
           | Inr configFile \<Rightarrow>
               (case conf_FieldString quickfixInputMsgStoreType of
                  Inl err \<Rightarrow> Inl err
                | Inr storeType' \<Rightarrow>
                    (case conf_FieldString quickfixInputLoggerType of
                       Inl err \<Rightarrow> Inl err
                     | Inr logType' \<Rightarrow>
                         (case GetSettings E configFile of
                            Inl err \<Rightarrow> Inl err
                          | Inr settings' \<Rightarrow>
                              Inr \<lparr>appType = appType', storeType = storeType',
                                   logType = logType', config = configFile,
                                   settings = settings', appDictionaries = None,
                                   transportDictionaries = None, eventChan = None\<rparr>)))))"

text \<open>
  \<^verbatim>\<open>Connect\<close>. The adapter hands itself to the library as the application: \<open>this\<close>
  is its own reference. The value that \<^verbatim>\<open>fixapp.Start()\<close> returns is dropped, and
  \<^verbatim>\<open>err\<close>, which is nil at that point, is returned.
\<close>

definition Connect ::
  "env \<Rightarrow> Application \<Rightarrow> quickfixInput \<Rightarrow> 'w::len word world \<Rightarrow>
   (error option \<times> quickfixInput \<times> 'w word world) outcome" where
  "Connect E this q w =
     (case GetOrCreateFixApp E (appType q) (storeType q) (logType q) this (config q) w of
        (Inl err, w1) \<Rightarrow> Returns (Some err, q, w1)
      | (Inr fixapp, w1) \<Rightarrow>
          (case Start E fixapp (w1\<lparr>chans := chans w1 @ [\<lparr>closed = False, sending = []\<rparr>]\<rparr>) of
             Returns (startErr, w2) \<Rightarrow> Returns (None, q\<lparr>eventChan := Some (length (chans w1))\<rparr>, w2)
           | Panics p \<Rightarrow> Panics p
           | BlocksForever \<Rightarrow> BlocksForever))"

text \<open>
  The \<^verbatim>\<open>select\<close> of \<^verbatim>\<open>Read\<close>. \<open>ctx\<close> is \<^verbatim>\<open>ctx.Err()\<close>: \<open>None\<close> while the context
  is not done. When both cases are ready Go chooses one at random: \<open>pickCtx\<close> is that
  choice.
\<close>

datatype selected = Received quickfixEvent | ChanClosed | CtxDone error | NothingReady

definition selectRead :: "chan_state \<Rightarrow> error option \<Rightarrow> bool \<Rightarrow> selected" where
  "selectRead ch ctx pickCtx =
     (case sending ch of
        ev # rest \<Rightarrow>
          (case ctx of
             None \<Rightarrow> Received ev
           | Some ctxErr \<Rightarrow> if pickCtx then CtxDone ctxErr else Received ev)
      | [] \<Rightarrow>
          (if closed ch then
             (case ctx of
                None \<Rightarrow> ChanClosed
              | Some ctxErr \<Rightarrow> if pickCtx then CtxDone ctxErr else ChanClosed)
           else (case ctx of None \<Rightarrow> NothingReady | Some ctxErr \<Rightarrow> CtxDone ctxErr)))"

definition lookupDict ::
  "(SessionID \<rightharpoonup> DataDictionary) option \<Rightarrow> SessionID \<Rightarrow> DataDictionary option" where
  "lookupDict mp sessionID = (case mp of None \<Rightarrow> None | Some d \<Rightarrow> d sessionID)"

definition valueAt :: "'int world \<Rightarrow> baddr \<Rightarrow> byte list" where
  "valueAt w b = (if b < length (buffers w) then buffers w ! b else [])"

definition contentOf :: "'int world \<Rightarrow> maddr option \<Rightarrow> Fields option" where
  "contentOf w m =
     (case m of
        None \<Rightarrow> None
      | Some p \<Rightarrow>
          if p < length (messages w)
          then Some (map (\<lambda>(tag, b). (tag, valueAt w b)) (messages w ! p))
          else None)"

definition Read ::
  "env \<Rightarrow> quickfixInput \<Rightarrow> error option \<Rightarrow> bool \<Rightarrow> 'int world \<Rightarrow>
   ((error + service_Message) \<times> quickfixInput \<times> 'int world) outcome" where
  "Read E q ctx pickCtx w =
     (case eventChan q of
        None \<Rightarrow> Returns (Inl ErrNotConnected, q, w)
      | Some c \<Rightarrow>
          (if c < length (chans w) then
             (case selectRead (chans w ! c) ctx pickCtx of
                Received msg \<Rightarrow>
                  (case Message_ToJSON E (contentOf w (message msg)) True
                          (lookupDict (appDictionaries q) (sessionId msg)) of
                     Returns json \<Rightarrow>
                       Returns
                         (Inr \<lparr>body = json,
                               meta = [''quickfix_session_id'' \<mapsto> SessionID_String E (sessionId msg),
                                       ''quickfix_event'' \<mapsto> eventType msg]\<rparr>,
                          q,
                          w\<lparr>chans := (chans w)[c := (chans w ! c)\<lparr>sending := tl (sending (chans w ! c))\<rparr>]\<rparr>)
                   | Panics p \<Rightarrow> Panics p
                   | BlocksForever \<Rightarrow> BlocksForever)
              | ChanClosed \<Rightarrow> Returns (Inl ErrEndOfInput, q\<lparr>eventChan := None\<rparr>, w)
              | CtxDone ctxErr \<Rightarrow> Returns (Inl ctxErr, q, w)
              | NothingReady \<Rightarrow> BlocksForever)
           else Returns (Inl ErrNotConnected, q, w)))"

text \<open>
  \<^verbatim>\<open>Close\<close> closes the channel first, then looks the handle up again and stops it.
  Closing a nil or a closed channel panics, and so does every sender that is blocked in
  the channel when it is closed. When the lookup fails \<^verbatim>\<open>Close\<close> returns the error
  and the handle is not stopped.
\<close>

definition Close ::
  "env \<Rightarrow> Application \<Rightarrow> quickfixInput \<Rightarrow> 'w::len word world \<Rightarrow>
   (error option \<times> 'w word world) outcome" where
  "Close E this q w =
     (case eventChan q of
        None \<Rightarrow> Panics CloseOfNilChannel
      | Some c \<Rightarrow>
          (if c < length (chans w) then
             (if closed (chans w ! c) then Panics CloseOfClosedChannel
              else
                (case sending (chans w ! c) of
                   ev # rest \<Rightarrow> Panics SendOnClosedChannel
                 | [] \<Rightarrow>
                     (case GetOrCreateFixApp E (appType q) (storeType q) (logType q) this (config q)
                             (w\<lparr>chans := (chans w)[c := (chans w ! c)\<lparr>closed := True\<rparr>],
                                calls := calls w @ [ChanClose c]\<rparr>) of
                        (Inl err, w1) \<Rightarrow> Returns (Some err, w1)
                      | (Inr fixapp, w1) \<Rightarrow>
                          (case Stop fixapp w1 of
                             Returns w2 \<Rightarrow> Returns (None, w2)
                           | Panics p \<Rightarrow> Panics p
                           | BlocksForever \<Rightarrow> BlocksForever))))
           else Panics CloseOfNilChannel))"

subsection \<open>Repeated calls and sequences of operations\<close>

primrec Start_times ::
  "nat \<Rightarrow> env \<Rightarrow> addr \<Rightarrow> 'w::len word world \<Rightarrow> 'w word world outcome" where
  "Start_times 0 E a w = Returns w"
| "Start_times (Suc n) E a w =
     (case Start E a w of
        Returns (err, w') \<Rightarrow> Start_times n E a w'
      | Panics p \<Rightarrow> Panics p
      | BlocksForever \<Rightarrow> BlocksForever)"

primrec Stop_times :: "nat \<Rightarrow> addr \<Rightarrow> 'w::len word world \<Rightarrow> 'w word world outcome" where
  "Stop_times 0 a w = Returns w"
| "Stop_times (Suc n) a w =
     (case Stop a w of
        Returns w' \<Rightarrow> Stop_times n a w'
      | Panics p \<Rightarrow> Panics p
      | BlocksForever \<Rightarrow> BlocksForever)"

text \<open>
  The three operations of \<^verbatim>\<open>fixapp.go\<close> are the only ones that touch the registry
  and the handles. \<open>run\<close> performs a sequence of them, whatever each one returns.
\<close>

datatype operation =
    OpGetOrCreateFixApp env fixAppType messageStoreType logFactoryType Application string
  | OpStart env addr
  | OpStop addr

fun perform :: "operation \<Rightarrow> 'w::len word world \<Rightarrow> 'w word world" where
  "perform (OpGetOrCreateFixApp E t ms lt app configFile) w =
     snd (GetOrCreateFixApp E t ms lt app configFile w)"
| "perform (OpStart E a) w = (case Start E a w of Returns (err, w') \<Rightarrow> w' | _ \<Rightarrow> w)"
| "perform (OpStop a) w = (case Stop a w of Returns w' \<Rightarrow> w' | _ \<Rightarrow> w)"

fun run :: "operation list \<Rightarrow> 'w::len word world \<Rightarrow> 'w word world" where
  "run [] w = w"
| "run (x # xs) w = run xs (perform x w)"

subsection \<open>A stand-in environment\<close>

text \<open>
  One environment in which everything succeeds, for running the model on concrete
  inputs: a single configuration file \<^verbatim>\<open>fix.cfg\<close>, one acceptor and one initiator
  that the library hands out, and a rendering of session identifiers in the manner of
  the library. The checksum is taken injective, and \<^verbatim>\<open>CopyInto\<close> copies the fields
  with their references, so that the copy refers to the buffers of its source.
\<close>

definition standIn :: env where
  "standIn =
     \<lparr>sha256_Sum = (\<lambda>t. t),
      os_Open = (\<lambda>path. if path = ''fix.cfg'' then Inr 3 else Inl (LibErr ''no such file'')),
      io_ReadAll = (\<lambda>c. ([91, 68, 69, 70, 65, 85, 76, 84, 93], None)),
      filepath_Abs = (\<lambda>path. Inr path),
      quickfix_ParseSettings = (\<lambda>c. Inr 5),
      filelog_NewLogFactory = (\<lambda>s. Inr (FileLogFactory s)),
      quickfix_NewAcceptor = (\<lambda>app store s log. (Some 11, None)),
      quickfix_NewInitiator = (\<lambda>app store s log. (Some 12, None)),
      acceptor_Start = (\<lambda>a. None),
      initiator_Start = (\<lambda>i. None),
      quickfix_NewMessage = [],
      Message_CopyInto = (\<lambda>bs m to. (m, bs)),
      Message_ToJSON = (\<lambda>m b d. Returns []),
      SessionID_String = (\<lambda>s. BeginString s @ '':'' @ SenderCompID s @ ''->'' @ TargetCompID s),
      Settings_SessionSettings = (\<lambda>s sessionID. Some 0),
      SessionSettings_HasSetting = (\<lambda>session name. name = ''DataDictionary''),
      SessionSettings_Setting = (\<lambda>session name. Inr ''FIX44.xml''),
      datadictionary_Parse = (\<lambda>path. Inr 8)\<rparr>"

definition emptyWorld :: "'w::len word world" where
  "emptyWorld =
     \<lparr>fixappstore = Map.empty, fixapps = [], calls = [], chans = [], messages = [],
      buffers = []\<rparr>"

definition S1 :: SessionID where
  "S1 = zeroSessionID\<lparr>BeginString := ''FIX.4.4'', SenderCompID := ''S1'', TargetCompID := ''T1''\<rparr>"

definition cfgBytes :: "byte list" where
  "cfgBytes = [91, 68, 69, 70, 65, 85, 76, 84, 93]"

text \<open>
  The handle that \<^verbatim>\<open>GetOrCreateFixApp\<close> registers for an acceptor in the stand-in
  environment, the world that holds it and nothing else, and that world after one
  \<^verbatim>\<open>Start\<close>. \<open>startFails\<close> is the stand-in environment with an acceptor whose
  \<^verbatim>\<open>Start\<close> returns an error.
\<close>

definition freshHandle :: "'w::len word fixapp" where
  "freshHandle =
     \<lparr>chksum = cfgBytes, acceptor = Some 11, initiator = None,
      state = fixappstatestopped, refcount = 0\<rparr>"

definition freshWorld :: "'w::len word world" where
  "freshWorld = emptyWorld\<lparr>fixappstore := [cfgBytes \<mapsto> 0], fixapps := [freshHandle]\<rparr>"

definition lastHolderWorld :: "'w::len word world" where
  "lastHolderWorld =
     emptyWorld
       \<lparr>fixappstore := [cfgBytes \<mapsto> 0],
        fixapps := [freshHandle\<lparr>state := fixappstatestarted, refcount := 1\<rparr>],
        calls := [AcceptorStart 11]\<rparr>"

definition startFails :: env where
  "startFails = standIn\<lparr>acceptor_Start := (\<lambda>a. Some (LibErr ''address already in use''))\<rparr>"

text \<open>
  \<open>readFails\<close>: the file opens but reading it fails after two bytes. \<open>copyEnv\<close>: the
  same configuration bytes under another path.
\<close>

definition readFails :: env where
  "readFails = standIn\<lparr>io_ReadAll := (\<lambda>c. ([91, 68], Some (LibErr ''input/output error'')))\<rparr>"

definition copyEnv :: env where
  "copyEnv =
     standIn\<lparr>os_Open := (\<lambda>path. if path = ''copy.cfg'' then Inr 4 else Inl (LibErr ''no such file''))\<rparr>"

definition acceptorInput :: quickfixInput where
  "acceptorInput =
     \<lparr>appType = acceptorType, storeType = messageStoreMem, logType = logFactoryScreen,
      config = ''fix.cfg'', settings = 5, appDictionaries = None,
      transportDictionaries = None, eventChan = None\<rparr>"

text \<open>
  The parsed configuration of the stand-in adapter, the adapter after \<^verbatim>\<open>Connect\<close> in the
  empty world and the world it leaves, and that world with one message of the engine:
  a new order, with the bytes of its two values in two buffers.
\<close>

definition standInConf :: "string \<Rightarrow> error + string" where
  "standInConf name =
     (if name = quickfixInputApplicationType then Inr acceptorType
      else if name = quickfixInputConfigFile then Inr ''fix.cfg''
      else if name = quickfixInputMsgStoreType then Inr messageStoreMem
      else if name = quickfixInputLoggerType then Inr logFactoryScreen
      else Inl (LibErr ''field not found''))"

definition connectedInput :: quickfixInput where
  "connectedInput = acceptorInput\<lparr>eventChan := Some 0\<rparr>"

definition connectedWorld :: "'w::len word world" where
  "connectedWorld = lastHolderWorld\<lparr>chans := [\<lparr>closed = False, sending = []\<rparr>]\<rparr>"

definition engineMessage :: Message where
  "engineMessage = [(35, 0), (11, 1)]"

definition engineBuffers :: "byte list list" where
  "engineBuffers = [[68], [111, 114, 100, 101, 114, 45, 49]]"

definition engineWorld :: "'w::len word world" where
  "engineWorld = connectedWorld\<lparr>messages := [engineMessage], buffers := engineBuffers\<rparr>"

section \<open>Properties\<close>

subsection \<open>The stand-in environment at work\<close>

lemma started_neq_stopped: "fixappstatestarted \<noteq> fixappstatestopped"
  by (simp add: fixappstatestarted_def fixappstatestopped_def)

lemma GetOrCreateFixApp_standIn:
  "GetOrCreateFixApp standIn acceptorType messageStoreMem logFactoryScreen 0 ''fix.cfg'' emptyWorld
     = (Inr 0, freshWorld)"
  by (simp add: GetOrCreateFixApp_def createChecksum_def standIn_def emptyWorld_def
      GetSettings_def createMessageStoreFactory_def createLogFactory_def newEngine_def
      freshWorld_def freshHandle_def cfgBytes_def)

lemma Start_freshWorld:
  "Start standIn 0 (freshWorld :: 64 word world) = Returns (None, lastHolderWorld)"
  by (simp add: Start_def fixapp_Start_def freshWorld_def freshHandle_def emptyWorld_def
      lastHolderWorld_def standIn_def started_neq_stopped[symmetric])

subsection \<open>The handle: \<^verbatim>\<open>Start\<close> and \<^verbatim>\<open>Stop\<close>\<close>

text \<open>
  C1. The claim: for a handle that is Started, \<^verbatim>\<open>Stop\<close> with a reference count of
  at most 1 stops the engine, clears the engine reference, returns the handle to
  Stopped and leaves the count at 0. The code does the first two and neither of the
  others: the branch that stops the engine assigns nil to both engine fields and
  returns, so the state stays \<^verbatim>\<open>started\<close> and the count keeps its value.
\<close>

theorem Stop_of_last_holder_leaves_state_and_refcount:
  assumes "a < length (fixapps w)"
    and "state (fixapps w ! a) = fixappstatestarted"
    and "refcount (fixapps w ! a) \<le>s 1"
  shows "\<exists>w'. Stop a w = Returns w'
           \<and> acceptor (fixapps w' ! a) = None \<and> initiator (fixapps w' ! a) = None
           \<and> state (fixapps w' ! a) = fixappstatestarted
           \<and> refcount (fixapps w' ! a) = refcount (fixapps w ! a)"
  using assms
  by (auto simp add: Stop_def fixapp_Stop_def started_neq_stopped signed.not_less
      split: option.splits)

theorem Stop_of_last_holder_leaves_state_and_refcount_witness:
  "GetOrCreateFixApp standIn acceptorType messageStoreMem logFactoryScreen 0 ''fix.cfg'' emptyWorld
     = (Inr 0, freshWorld :: 64 word world)
   \<and> Start standIn 0 (freshWorld :: 64 word world) = Returns (None, lastHolderWorld)
   \<and> (\<exists>w'. Stop 0 (lastHolderWorld :: 64 word world) = Returns w'
          \<and> acceptor (fixapps w' ! 0) = None
          \<and> state (fixapps w' ! 0) \<noteq> fixappstatestopped \<and> refcount (fixapps w' ! 0) \<noteq> 0)"
proof -
  have "\<exists>w'. Stop 0 (lastHolderWorld :: 64 word world) = Returns w'
          \<and> acceptor (fixapps w' ! 0) = None
          \<and> state (fixapps w' ! 0) \<noteq> fixappstatestopped \<and> refcount (fixapps w' ! 0) \<noteq> 0"
    using Stop_of_last_holder_leaves_state_and_refcount [of 0 "lastHolderWorld :: 64 word world"]
    by (auto simp add: lastHolderWorld_def freshHandle_def emptyWorld_def started_neq_stopped)
  then show ?thesis
    using GetOrCreateFixApp_standIn [where 'a = 64] Start_freshWorld by simp
qed

text \<open>
  What follows from it: the handle stays registered, so the next \<^verbatim>\<open>Start\<close> finds it
  Started, starts no engine and only counts.
\<close>

lemma Start_after_the_last_Stop_starts_nothing:
  assumes "a < length (fixapps w)"
    and "state (fixapps w ! a) = fixappstatestarted"
    and "refcount (fixapps w ! a) \<le>s 1"
    and "Stop a w = Returns w1"
  shows "\<exists>w2. Start E a w1 = Returns (None, w2) \<and> calls w2 = calls w1
           \<and> acceptor (fixapps w2 ! a) = None \<and> initiator (fixapps w2 ! a) = None"
proof -
  have "\<not> 1 <s refcount (fixapps w ! a)"
    using assms(3) by (simp add: signed.not_less)
  then have "fixapp_Stop (fixapps w ! a)
      = ((fixapps w ! a)\<lparr>acceptor := None, initiator := None\<rparr>,
         (case acceptor (fixapps w ! a) of
            Some x \<Rightarrow> [AcceptorStop x]
          | None \<Rightarrow> (case initiator (fixapps w ! a) of Some y \<Rightarrow> [InitiatorStop y] | None \<Rightarrow> [])))"
    using assms(2) by (simp add: fixapp_Stop_def started_neq_stopped)
  then have "fixapps w1 = (fixapps w)[a := (fixapps w ! a)\<lparr>acceptor := None, initiator := None\<rparr>]"
    using assms(1,4) by (auto simp add: Stop_def)
  then have "a < length (fixapps w1)"
    and "fixapps w1 ! a = (fixapps w ! a)\<lparr>acceptor := None, initiator := None\<rparr>"
    using assms(1) by simp_all
  then show ?thesis
    using assms(2) by (simp add: Start_def fixapp_Start_def)
qed

text \<open>
  C3. Every call of \<^verbatim>\<open>Start\<close> adds one to the reference count and leaves the handle
  Started. When the handle was not Started, the error returned is the one of the
  engine's own start (of the acceptor if there is one, else of the initiator), or the
  error for a handle without an engine: a failed start is returned to the caller, and
  the handle is Started with its count incremented all the same.
\<close>

theorem Start_increments_refcount_even_on_failure:
  assumes "a < length (fixapps w)"
  shows "\<exists>err w'. Start E a w = Returns (err, w')
           \<and> length (fixapps w') = length (fixapps w)
           \<and> refcount (fixapps w' ! a) = refcount (fixapps w ! a) + 1
           \<and> state (fixapps w' ! a) = fixappstatestarted
           \<and> (state (fixapps w ! a) \<noteq> fixappstatestarted \<longrightarrow>
                (\<forall>x. acceptor (fixapps w ! a) = Some x \<longrightarrow> err = acceptor_Start E x) \<and>
                (\<forall>y. acceptor (fixapps w ! a) = None \<longrightarrow> initiator (fixapps w ! a) = Some y \<longrightarrow>
                      err = initiator_Start E y) \<and>
                (acceptor (fixapps w ! a) = None \<longrightarrow> initiator (fixapps w ! a) = None \<longrightarrow>
                      err = Some CannotStartUninitializedFixapp))"
  using assms
  by (auto simp add: Start_def fixapp_Start_def split: option.splits)

theorem Start_increments_refcount_even_on_failure_witness:
  "\<exists>w'. Start startFails 0 (freshWorld :: 64 word world)
           = Returns (Some (LibErr ''address already in use''), w')
         \<and> refcount (fixapps w' ! 0) = 1 \<and> state (fixapps w' ! 0) = fixappstatestarted"
  using Start_increments_refcount_even_on_failure [of 0 "freshWorld :: 64 word world" startFails]
  by (auto simp add: freshWorld_def freshHandle_def emptyWorld_def startFails_def standIn_def
      started_neq_stopped[symmetric])

lemma sint_of_nat_small:
  assumes "m < 2 ^ (LENGTH('w::len) - 1)"
  shows "sint (of_nat m :: 'w word) = int m"
proof -
  have "int m < 2 ^ (LENGTH('w) - 1)"
    using assms by (metis of_nat_less_iff of_nat_numeral of_nat_power)
  then have "signed_take_bit (LENGTH('w) - 1) (int m) = int m"
    by (intro signed_take_bit_int_eq_self) (auto intro: order_trans [of _ 0])
  then show ?thesis
    by (simp add: signed_of_nat)
qed

lemma one_sless_of_nat:
  assumes "2 \<le> m" and "m < 2 ^ (LENGTH('w::len) - 1)"
  shows "(1 :: 'w word) <s of_nat m"
proof -
  have "(1::nat) < 2 ^ (LENGTH('w) - 1)" using assms by linarith
  then have "sint (of_nat 1 :: 'w word) = int 1" by (rule sint_of_nat_small)
  moreover have "sint (of_nat m :: 'w word) = int m" using assms(2) by (rule sint_of_nat_small)
  ultimately show ?thesis using assms(1) by (simp add: word_sless_alt)
qed

lemma Start_step:
  assumes "a < length (fixapps w)"
  shows "\<exists>err w'. Start E a w = Returns (err, w')
           \<and> length (fixapps w') = length (fixapps w)
           \<and> refcount (fixapps w' ! a) = refcount (fixapps w ! a) + 1
           \<and> acceptor (fixapps w' ! a) = acceptor (fixapps w ! a)
           \<and> initiator (fixapps w' ! a) = initiator (fixapps w ! a)
           \<and> state (fixapps w' ! a) = fixappstatestarted"
  using assms
  by (auto simp add: Start_def fixapp_Start_def split: option.splits)

lemma Start_times_handle:
  assumes "a < length (fixapps w)"
  shows "\<exists>w'. Start_times n E a w = Returns w'
           \<and> length (fixapps w') = length (fixapps w)
           \<and> refcount (fixapps w' ! a) = refcount (fixapps w ! a) + of_nat n
           \<and> acceptor (fixapps w' ! a) = acceptor (fixapps w ! a)
           \<and> initiator (fixapps w' ! a) = initiator (fixapps w ! a)
           \<and> (0 < n \<longrightarrow> state (fixapps w' ! a) = fixappstatestarted)"
  using assms
proof (induction n arbitrary: w)
  case 0
  then show ?case by simp
next
  case (Suc n)
  from Start_step [OF Suc.prems, of E] obtain err w1 where s: "Start E a w = Returns (err, w1)"
    and l: "length (fixapps w1) = length (fixapps w)"
    and r: "refcount (fixapps w1 ! a) = refcount (fixapps w ! a) + 1"
    and e: "acceptor (fixapps w1 ! a) = acceptor (fixapps w ! a)"
           "initiator (fixapps w1 ! a) = initiator (fixapps w ! a)"
    and st: "state (fixapps w1 ! a) = fixappstatestarted"
    by blast
  have a1: "a < length (fixapps w1)" using Suc.prems l by simp
  from Suc.IH [OF a1] obtain w' where n:
    "Start_times n E a w1 = Returns w'"
    "length (fixapps w') = length (fixapps w1)"
    "refcount (fixapps w' ! a) = refcount (fixapps w1 ! a) + of_nat n"
    "acceptor (fixapps w' ! a) = acceptor (fixapps w1 ! a)"
    "initiator (fixapps w' ! a) = initiator (fixapps w1 ! a)"
    "0 < n \<longrightarrow> state (fixapps w' ! a) = fixappstatestarted"
    by blast
  have "state (fixapps w' ! a) = fixappstatestarted"
  proof (cases n)
    case 0
    then show ?thesis using n(1) st by simp
  next
    case (Suc k)
    then show ?thesis using n(6) by simp
  qed
  then show ?case using s l r e n by (simp add: algebra_simps)
qed

lemma Stop_step_shared:
  assumes "a < length (fixapps w)" and "1 <s refcount (fixapps w ! a)"
  shows "Stop a w = Returns (w\<lparr>fixapps := (fixapps w)[a := (fixapps w ! a)\<lparr>refcount := refcount (fixapps w ! a) - 1\<rparr>]\<rparr>)"
  using assms by (simp add: Stop_def fixapp_Stop_def)

lemma Stop_times_shared:
  assumes "a < length (fixapps w)"
    and "refcount (fixapps w ! a) = of_nat n"
    and "k < n" and "n < 2 ^ (LENGTH('w) - 1)"
  shows "\<exists>w'. Stop_times k a (w :: 'w::len word world) = Returns w'
           \<and> calls w' = calls w
           \<and> length (fixapps w') = length (fixapps w)
           \<and> fixapps w' ! a = (fixapps w ! a)\<lparr>refcount := of_nat (n - k)\<rparr>"
  using assms
proof (induction k arbitrary: w n)
  case 0
  then show ?case by simp
next
  case (Suc k)
  have "2 \<le> n" using Suc.prems(3) by simp
  then have "(1 :: 'w word) <s of_nat n" using Suc.prems(4) by (rule one_sless_of_nat)
  then have step: "Stop a w = Returns (w\<lparr>fixapps := (fixapps w)[a := (fixapps w ! a)\<lparr>refcount := refcount (fixapps w ! a) - 1\<rparr>]\<rparr>)"
    using Suc.prems(1,2) by (simp add: Stop_step_shared)
  let ?w1 = "w\<lparr>fixapps := (fixapps w)[a := (fixapps w ! a)\<lparr>refcount := refcount (fixapps w ! a) - 1\<rparr>]\<rparr>"
  have r1: "refcount (fixapps ?w1 ! a) = of_nat (n - 1)"
    using Suc.prems(1,2,3) by simp
  have "\<exists>w'. Stop_times k a ?w1 = Returns w'
           \<and> calls w' = calls ?w1
           \<and> length (fixapps w') = length (fixapps ?w1)
           \<and> fixapps w' ! a = (fixapps ?w1 ! a)\<lparr>refcount := of_nat (n - 1 - k)\<rparr>"
    using Suc.prems by (intro Suc.IH [OF _ r1]) auto
  then show ?case using step Suc.prems(1) by auto
qed


lemma Stop_step_last:
  assumes "a < length (fixapps w)"
    and "state (fixapps w ! a) = fixappstatestarted"
    and "refcount (fixapps w ! a) = 1"
  shows "\<exists>w'. Stop a w = Returns w' \<and>
           (case acceptor (fixapps w ! a) of
              Some x \<Rightarrow> calls w' = calls w @ [AcceptorStop x]
            | None \<Rightarrow>
                (case initiator (fixapps w ! a) of
                   Some y \<Rightarrow> calls w' = calls w @ [InitiatorStop y]
                 | None \<Rightarrow> calls w' = calls w))"
  using assms
  by (simp add: Stop_def fixapp_Stop_def started_neq_stopped split: option.splits)

text \<open>
  C2. From a fresh handle (Stopped, reference count 0) \<^verbatim>\<open>Start\<close> called \<open>N\<close> times
  returns each time and leaves the count at \<open>N\<close>; after that, no number of
  \<^verbatim>\<open>Stop\<close> calls below \<open>N\<close> makes any call into the engine, and the \<open>N\<close>th
  \<^verbatim>\<open>Stop\<close> calls the stop of the handle's engine. The handle owns an engine, an
  acceptor or an initiator, and \<open>N\<close> is a value of Go's \<^verbatim>\<open>int\<close>: the count is a
  signed machine word and \<^verbatim>\<open>refcount > 1\<close> is a signed comparison.
\<close>

theorem Start_N_times_then_only_the_Nth_Stop_stops_the_engine:
  fixes w :: "'w::len word world"
  assumes "a < length (fixapps w)"
    and "state (fixapps w ! a) = fixappstatestopped"
    and "refcount (fixapps w ! a) = 0"
    and "acceptor (fixapps w ! a) \<noteq> None \<or> initiator (fixapps w ! a) \<noteq> None"
    and "1 \<le> N"
    and "N < 2 ^ (LENGTH('w) - 1)"
  shows "\<exists>w1. Start_times N E a w = Returns w1
           \<and> sint (refcount (fixapps w1 ! a)) = int N
           \<and> (\<forall>k<N. \<exists>wk. Stop_times k a w1 = Returns wk \<and> calls wk = calls w1)
           \<and> (\<exists>w2 w3. Stop_times (N - 1) a w1 = Returns w2 \<and> Stop a w2 = Returns w3
                 \<and> (case acceptor (fixapps w ! a) of
                      Some x \<Rightarrow> calls w3 = calls w2 @ [AcceptorStop x]
                    | None \<Rightarrow>
                        (case initiator (fixapps w ! a) of
                           Some y \<Rightarrow> calls w3 = calls w2 @ [InitiatorStop y]
                         | None \<Rightarrow> False)))"
proof -
  from Start_times_handle [OF assms(1), of N E] obtain w1 where w1:
    "Start_times N E a w = Returns w1"
    "length (fixapps w1) = length (fixapps w)"
    "refcount (fixapps w1 ! a) = refcount (fixapps w ! a) + of_nat N"
    "acceptor (fixapps w1 ! a) = acceptor (fixapps w ! a)"
    "initiator (fixapps w1 ! a) = initiator (fixapps w ! a)"
    "0 < N \<longrightarrow> state (fixapps w1 ! a) = fixappstatestarted"
    by blast
  have a1: "a < length (fixapps w1)" using assms(1) w1(2) by simp
  have r1: "refcount (fixapps w1 ! a) = of_nat N" using w1(3) assms(3) by simp
  have s1: "state (fixapps w1 ! a) = fixappstatestarted" using w1(6) assms(5) by simp
  have count: "sint (refcount (fixapps w1 ! a)) = int N"
    using r1 assms(6) by (simp add: sint_of_nat_small)
  have shared: "\<exists>wk. Stop_times k a w1 = Returns wk \<and> calls wk = calls w1
                  \<and> length (fixapps wk) = length (fixapps w1)
                  \<and> fixapps wk ! a = (fixapps w1 ! a)\<lparr>refcount := of_nat (N - k)\<rparr>"
    if "k < N" for k
    using Stop_times_shared [OF a1 r1 that assms(6)] .
  have quiet: "\<forall>k<N. \<exists>wk. Stop_times k a w1 = Returns wk \<and> calls wk = calls w1"
    using shared by blast
  have "N - 1 < N" using assms(5) by simp
  from shared [OF this] obtain w2 where w2:
    "Stop_times (N - 1) a w1 = Returns w2" "calls w2 = calls w1"
    "length (fixapps w2) = length (fixapps w1)"
    "fixapps w2 ! a = (fixapps w1 ! a)\<lparr>refcount := of_nat (N - (N - 1))\<rparr>"
    by blast
  have a2: "a < length (fixapps w2)" using a1 w2(3) by simp
  have s2: "state (fixapps w2 ! a) = fixappstatestarted" using w2(4) s1 by simp
  have r2: "refcount (fixapps w2 ! a) = 1" using w2(4) assms(5) by simp
  have e2: "acceptor (fixapps w2 ! a) = acceptor (fixapps w ! a)"
    "initiator (fixapps w2 ! a) = initiator (fixapps w ! a)"
    using w2(4) w1(4,5) by simp_all
  from Stop_step_last [OF a2 s2 r2] obtain w3 where w3: "Stop a w2 = Returns w3"
    "(case acceptor (fixapps w2 ! a) of
        Some x \<Rightarrow> calls w3 = calls w2 @ [AcceptorStop x]
      | None \<Rightarrow>
          (case initiator (fixapps w2 ! a) of
             Some y \<Rightarrow> calls w3 = calls w2 @ [InitiatorStop y]
           | None \<Rightarrow> calls w3 = calls w2))"
    by blast
  have last: "(case acceptor (fixapps w ! a) of
                 Some x \<Rightarrow> calls w3 = calls w2 @ [AcceptorStop x]
               | None \<Rightarrow>
                   (case initiator (fixapps w ! a) of
                      Some y \<Rightarrow> calls w3 = calls w2 @ [InitiatorStop y]
                    | None \<Rightarrow> False))"
    using w3(2) e2 assms(4) by (auto split: option.splits)
  show ?thesis using w1(1) count quiet w2(1) w3(1) last by blast
qed

theorem Start_N_times_then_only_the_Nth_Stop_stops_the_engine_witness:
  "\<exists>w1 w2 w3. Start_times 3 standIn 0 (freshWorld :: 64 word world) = Returns w1
      \<and> sint (refcount (fixapps w1 ! 0)) = 3
      \<and> Stop_times 2 0 w1 = Returns w2 \<and> calls w2 = calls w1
      \<and> Stop 0 w2 = Returns w3 \<and> calls w3 = calls w2 @ [AcceptorStop 11]"
proof -
  have f: "fixapps (freshWorld :: 64 word world) ! 0 = freshHandle"
    "length (fixapps (freshWorld :: 64 word world)) = 1"
    by (simp_all add: freshWorld_def emptyWorld_def)
  have "\<exists>w1. Start_times 3 standIn 0 (freshWorld :: 64 word world) = Returns w1
           \<and> sint (refcount (fixapps w1 ! 0)) = int 3
           \<and> (\<forall>k<3. \<exists>wk. Stop_times k 0 w1 = Returns wk \<and> calls wk = calls w1)
           \<and> (\<exists>w2 w3. Stop_times (3 - 1) 0 w1 = Returns w2 \<and> Stop 0 w2 = Returns w3
                 \<and> (case acceptor (fixapps (freshWorld :: 64 word world) ! 0) of
                      Some x \<Rightarrow> calls w3 = calls w2 @ [AcceptorStop x]
                    | None \<Rightarrow>
                        (case initiator (fixapps (freshWorld :: 64 word world) ! 0) of
                           Some y \<Rightarrow> calls w3 = calls w2 @ [InitiatorStop y]
                         | None \<Rightarrow> False)))"
    by (rule Start_N_times_then_only_the_Nth_Stop_stops_the_engine)
      (simp_all add: f freshHandle_def)
  then obtain w1 w2 w3 where w:
    "Start_times 3 standIn 0 (freshWorld :: 64 word world) = Returns w1"
    "sint (refcount (fixapps w1 ! 0)) = int 3"
    "\<forall>k<3. \<exists>wk. Stop_times k 0 w1 = Returns wk \<and> calls wk = calls w1"
    "Stop_times (3 - 1) 0 w1 = Returns w2" "Stop 0 w2 = Returns w3"
    "calls w3 = calls w2 @ [AcceptorStop 11]"
    by (auto simp add: f freshHandle_def)
  from w(3) have "(2::nat) < 3 \<longrightarrow> (\<exists>wk. Stop_times 2 0 w1 = Returns wk \<and> calls wk = calls w1)"
    by (rule spec)
  with w(4) have "calls w2 = calls w1" by simp
  with w show ?thesis by auto
qed

subsection \<open>The registry: \<^verbatim>\<open>GetOrCreateFixApp\<close>\<close>

lemma createChecksum_opened:
  assumes "os_Open E configPath = Inr c"
  shows "createChecksum E configPath = Inr (sha256_Sum E (fst (io_ReadAll E c)))"
  using assms by (simp add: createChecksum_def split: prod.splits)

lemma GetOrCreateFixApp_existing:
  assumes "createChecksum E configFile = Inr chk" and "fixappstore w chk = Some a"
  shows "GetOrCreateFixApp E t ms lt app configFile w = (Inr a, w)"
  using assms by (simp add: GetOrCreateFixApp_def)

lemma GetOrCreateFixApp_registers:
  assumes "GetOrCreateFixApp E t ms lt app configFile w = (Inr a, w')"
  shows "\<exists>chk. createChecksum E configFile = Inr chk \<and> fixappstore w' chk = Some a"
  using assms
  by (auto simp add: GetOrCreateFixApp_def split: sum.splits option.splits prod.splits)

lemma GetOrCreateFixApp_keeps_entries:
  assumes "fixappstore w k = Some a"
  shows "fixappstore (snd (GetOrCreateFixApp E t ms lt app configFile w)) k = Some a"
  using assms
  by (auto simp add: GetOrCreateFixApp_def split: sum.splits option.splits prod.splits)

lemma Start_fixappstore:
  assumes "Start E a w = Returns (err, w')"
  shows "fixappstore w' = fixappstore w"
  using assms by (auto simp add: Start_def split: if_splits prod.splits)

lemma Stop_fixappstore:
  assumes "Stop a w = Returns w'"
  shows "fixappstore w' = fixappstore w"
  using assms by (auto simp add: Stop_def split: if_splits prod.splits)

lemma perform_keeps_entries:
  assumes "fixappstore w k = Some a"
  shows "fixappstore (perform x w) k = Some a"
proof (cases x)
  case (OpGetOrCreateFixApp E t ms lt app configFile)
  then show ?thesis using assms by (simp add: GetOrCreateFixApp_keeps_entries)
next
  case (OpStart E b)
  then show ?thesis using assms
    by (auto split: outcome.splits dest: Start_fixappstore)
next
  case (OpStop b)
  then show ?thesis using assms
    by (auto split: outcome.splits dest: Stop_fixappstore)
qed

lemma run_keeps_entries:
  assumes "fixappstore w k = Some a"
  shows "fixappstore (run xs w) k = Some a"
  using assms by (induction xs arbitrary: w) (simp_all add: perform_keeps_entries)

lemma GetOrCreateFixApp_error_leaves_the_world:
  assumes "GetOrCreateFixApp E t ms lt app configFile w = (Inl e, w')"
  shows "w' = w"
  using assms
  by (auto simp add: GetOrCreateFixApp_def split: sum.splits option.splits prod.splits)

lemma GetOrCreateFixApp_open_fails:
  assumes "os_Open E configFile = Inl e"
  shows "GetOrCreateFixApp E t ms lt app configFile w = (Inl (FailedToOpenConfigFile e), w)"
  using assms by (simp add: GetOrCreateFixApp_def createChecksum_def)

lemma GetOrCreateFixApp_first:
  assumes "GetOrCreateFixApp E t ms lt app configFile w = (Inr a, w1)"
    and "createChecksum E configFile = Inr chk"
  shows "(case fixappstore w chk of
            Some b \<Rightarrow> a = b \<and> w1 = w
          | None \<Rightarrow>
              a = length (fixapps w)
              \<and> fixappstore w1 = (fixappstore w)(chk \<mapsto> a)
              \<and> (\<exists>f. fixapps w1 = fixapps w @ [f] \<and> chksum f = chk
                     \<and> state f = fixappstatestopped \<and> refcount f = 0)
              \<and> calls w1 = calls w \<and> chans w1 = chans w
              \<and> messages w1 = messages w \<and> buffers w1 = buffers w)"
  using assms
  by (auto simp add: GetOrCreateFixApp_def newEngine_def
      split: sum.splits option.splits prod.splits if_splits)

lemma GetOrCreateFixApp_length:
  "length (fixapps w) \<le> length (fixapps (snd (GetOrCreateFixApp E t ms lt app configFile w)))"
  by (auto simp add: GetOrCreateFixApp_def split: sum.splits option.splits prod.splits)

lemma perform_length: "length (fixapps w) \<le> length (fixapps (perform x w))"
proof (cases x)
  case (OpGetOrCreateFixApp E t ms lt app configFile)
  then show ?thesis by (simp add: GetOrCreateFixApp_length)
next
  case (OpStart E b)
  then show ?thesis
    by (auto simp add: Start_def split: outcome.splits if_splits prod.splits)
next
  case (OpStop b)
  then show ?thesis
    by (auto simp add: Stop_def split: outcome.splits if_splits prod.splits)
qed

lemma run_length: "length (fixapps w) \<le> length (fixapps (run xs w))"
proof (induction xs arbitrary: w)
  case Nil
  then show ?case by simp
next
  case (Cons x xs)
  have "length (fixapps w) \<le> length (fixapps (perform x w))" by (rule perform_length)
  also have "\<dots> \<le> length (fixapps (run xs (perform x w)))" by (rule Cons.IH)
  finally show ?case by simp
qed

text \<open>
  C4. Let a call of \<^verbatim>\<open>GetOrCreateFixApp\<close> return a handle for a file, in a world whose
  registry refers to allocated handles only, and let \<open>chk\<close> be the checksum of the
  bytes read from the file. If the registry had an entry for \<open>chk\<close>, the call
  returned it and changed nothing; if not, it allocated one Stopped handle with count 0
  and that checksum and added the one entry for \<open>chk\<close>. Either way the registry now
  maps \<open>chk\<close> to the handle, an allocated one, and it still does after any calls on
  the registry and its handles. A later call for a file from which the same bytes are
  read, under any path and with any role, store kind and log kind, returns that same
  handle and changes nothing: in every world, an entry that exists for the checksum is
  returned without looking at them.
\<close>

theorem GetOrCreateFixApp_same_content_same_handle:
  assumes "GetOrCreateFixApp E1 t1 ms1 lt1 app1 path1 w = (Inr a, w1)"
    and "os_Open E1 path1 = Inr c1" and "os_Open E2 path2 = Inr c2"
    and "fst (io_ReadAll E2 c2) = fst (io_ReadAll E1 c1)"
    and "sha256_Sum E2 = sha256_Sum E1"
    and "chk = sha256_Sum E1 (fst (io_ReadAll E1 c1))"
    and "\<forall>k b. fixappstore w k = Some b \<longrightarrow> b < length (fixapps w)"
  shows "(case fixappstore w chk of
            Some b \<Rightarrow> a = b \<and> w1 = w
          | None \<Rightarrow>
              a = length (fixapps w)
              \<and> fixappstore w1 = (fixappstore w)(chk \<mapsto> a)
              \<and> (\<exists>f. fixapps w1 = fixapps w @ [f] \<and> chksum f = chk
                     \<and> state f = fixappstatestopped \<and> refcount f = 0))
       \<and> fixappstore w1 chk = Some a
       \<and> a < length (fixapps w1)
       \<and> fixappstore (run xs w1) chk = Some a
       \<and> a < length (fixapps (run xs w1))
       \<and> GetOrCreateFixApp E2 t2 ms2 lt2 app2 path2 (run xs w1) = (Inr a, run xs w1)
       \<and> (\<forall>w' b. fixappstore w' chk = Some b \<longrightarrow>
             GetOrCreateFixApp E2 t2 ms2 lt2 app2 path2 w' = (Inr b, w'))"
proof -
  have sum1: "createChecksum E1 path1 = Inr chk"
    using assms(2,6) by (simp add: createChecksum_opened)
  have sum2: "createChecksum E2 path2 = Inr chk"
    using assms(3,4,5,6) by (simp add: createChecksum_opened)
  note first = GetOrCreateFixApp_first [OF assms(1) sum1]
  from GetOrCreateFixApp_registers [OF assms(1)] sum1
  have entry: "fixappstore w1 chk = Some a" by auto
  have allocated: "a < length (fixapps w1)"
  proof (cases "fixappstore w chk")
    case None
    then show ?thesis using first by auto
  next
    case (Some b)
    then have "a = b" "w1 = w" using first by simp_all
    then show ?thesis using Some assms(7) by blast
  qed
  have kept: "fixappstore (run xs w1) chk = Some a"
    using entry by (rule run_keeps_entries)
  have still: "a < length (fixapps (run xs w1))"
    using allocated run_length [of w1 xs] by simp
  have again: "GetOrCreateFixApp E2 t2 ms2 lt2 app2 path2 (run xs w1) = (Inr a, run xs w1)"
    using sum2 kept by (rule GetOrCreateFixApp_existing)
  have whatever: "\<forall>w' b. fixappstore w' chk = Some b \<longrightarrow>
             GetOrCreateFixApp E2 t2 ms2 lt2 app2 path2 w' = (Inr b, w')"
    using sum2 by (simp add: GetOrCreateFixApp_existing)
  have shape: "(case fixappstore w chk of
            Some b \<Rightarrow> a = b \<and> w1 = w
          | None \<Rightarrow>
              a = length (fixapps w)
              \<and> fixappstore w1 = (fixappstore w)(chk \<mapsto> a)
              \<and> (\<exists>f. fixapps w1 = fixapps w @ [f] \<and> chksum f = chk
                     \<and> state f = fixappstatestopped \<and> refcount f = 0))"
    using first by (auto split: option.splits)
  show ?thesis using shape entry allocated kept still again whatever by blast
qed

theorem GetOrCreateFixApp_same_content_same_handle_witness:
  "GetOrCreateFixApp standIn acceptorType messageStoreMem logFactoryScreen 0 ''fix.cfg''
           (emptyWorld :: 64 word world) = (Inr 0, freshWorld)
   \<and> fixappstore (emptyWorld :: 64 word world) cfgBytes = None
   \<and> fixappstore (freshWorld :: 64 word world) cfgBytes = Some 0
   \<and> fixappstore (run [OpStart standIn 0] (freshWorld :: 64 word world)) cfgBytes = Some 0
   \<and> GetOrCreateFixApp copyEnv initiatorType messageStoreFile logFactoryFile 1 ''copy.cfg''
           (run [OpStart standIn 0] (freshWorld :: 64 word world))
        = (Inr 0, run [OpStart standIn 0] freshWorld)"
proof -
  have wf: "\<forall>k b. fixappstore (emptyWorld :: 64 word world) k = Some b
              \<longrightarrow> b < length (fixapps (emptyWorld :: 64 word world))"
    by (simp add: emptyWorld_def)
  have chk: "cfgBytes = sha256_Sum standIn (fst (io_ReadAll standIn 3))"
    by (simp add: standIn_def cfgBytes_def)
  have o1: "os_Open standIn ''fix.cfg'' = Inr 3" by (simp add: standIn_def)
  have o2: "os_Open copyEnv ''copy.cfg'' = Inr 4" by (simp add: copyEnv_def)
  have same: "fst (io_ReadAll copyEnv 4) = fst (io_ReadAll standIn 3)"
    by (simp add: copyEnv_def standIn_def)
  have sha: "sha256_Sum copyEnv = sha256_Sum standIn" by (simp add: copyEnv_def)
  note inst = GetOrCreateFixApp_same_content_same_handle
    [OF GetOrCreateFixApp_standIn o1 o2 same sha chk wf,
     of "[OpStart standIn 0]" initiatorType messageStoreFile logFactoryFile 1]
  from inst have "fixappstore (freshWorld :: 64 word world) cfgBytes = Some 0"
    and "fixappstore (run [OpStart standIn 0] (freshWorld :: 64 word world)) cfgBytes = Some 0"
    and "GetOrCreateFixApp copyEnv initiatorType messageStoreFile logFactoryFile 1 ''copy.cfg''
           (run [OpStart standIn 0] (freshWorld :: 64 word world))
        = (Inr 0, run [OpStart standIn 0] freshWorld)"
    by blast+
  moreover have "fixappstore (emptyWorld :: 64 word world) cfgBytes = None"
    by (simp add: emptyWorld_def)
  ultimately show ?thesis using GetOrCreateFixApp_standIn [where 'a = 64] by simp
qed

lemma GetSettings_io_ReadAll [simp]:
  "GetSettings (E\<lparr>io_ReadAll := r\<rparr>) configFile = GetSettings E configFile"
  by (simp add: GetSettings_def split: sum.splits)

lemma createLogFactory_io_ReadAll [simp]:
  "createLogFactory (E\<lparr>io_ReadAll := r\<rparr>) t s = createLogFactory E t s"
  by (simp add: createLogFactory_def)

lemma newEngine_io_ReadAll [simp]:
  "newEngine (E\<lparr>io_ReadAll := r\<rparr>) t app store s log f = newEngine E t app store s log f"
  by (simp add: newEngine_def)

text \<open>
  C7. The claim: any failure to read the bytes of the configuration file makes the call
  return an error and leaves the registry alone. That holds when the file cannot be
  opened. When the file opens and \<^verbatim>\<open>io.ReadAll\<close> fails, \<^verbatim>\<open>createChecksum\<close> hashes
  the bytes read before the failure and returns no error, and \<^verbatim>\<open>GetOrCreateFixApp\<close>
  goes on exactly as if those bytes were the whole file: it returns the handle
  registered under their checksum, or builds and registers one.
\<close>

theorem read_error_of_createChecksum_is_ignored:
  assumes "os_Open E configFile = Inr c" and "io_ReadAll E c = (t, Some readErr)"
  shows "createChecksum E configFile = Inr (sha256_Sum E t)
       \<and> GetOrCreateFixApp E ty ms lt app configFile w
           = GetOrCreateFixApp (E\<lparr>io_ReadAll := (\<lambda>c. (t, None))\<rparr>) ty ms lt app configFile w"
proof -
  have 1: "createChecksum E configFile = Inr (sha256_Sum E t)"
    using assms by (simp add: createChecksum_def)
  have 2: "createChecksum (E\<lparr>io_ReadAll := (\<lambda>c. (t, None))\<rparr>) configFile = Inr (sha256_Sum E t)"
    using assms(1) by (simp add: createChecksum_def)
  show ?thesis using 1 by (simp add: GetOrCreateFixApp_def 2 cong: option.case_cong sum.case_cong)
qed

theorem read_error_of_createChecksum_is_ignored_witness:
  "createChecksum readFails ''fix.cfg'' = Inr [91, 68]
   \<and> (\<exists>w'. GetOrCreateFixApp readFails acceptorType messageStoreMem logFactoryScreen 0 ''fix.cfg''
              (emptyWorld :: 64 word world) = (Inr 0, w')
            \<and> fixappstore w' [91, 68] = Some 0)"
proof -
  have opened: "os_Open readFails ''fix.cfg'' = Inr 3"
    by (simp add: readFails_def standIn_def)
  have failed: "io_ReadAll readFails 3 = ([91, 68], Some (LibErr ''input/output error''))"
    by (simp add: readFails_def standIn_def)
  note ignored = read_error_of_createChecksum_is_ignored [OF opened failed]
  from ignored have "createChecksum readFails ''fix.cfg'' = Inr (sha256_Sum readFails [91, 68])"
    by (rule conjunct1)
  then have sum: "createChecksum readFails ''fix.cfg'' = Inr [91, 68]"
    by (simp add: readFails_def standIn_def)
  from ignored have
    "GetOrCreateFixApp readFails acceptorType messageStoreMem logFactoryScreen 0 ''fix.cfg''
        (emptyWorld :: 64 word world)
      = GetOrCreateFixApp (readFails\<lparr>io_ReadAll := \<lambda>c. ([91, 68], None)\<rparr>)
          acceptorType messageStoreMem logFactoryScreen 0 ''fix.cfg'' emptyWorld"
    by (rule conjunct2)
  also have "\<dots> = (Inr 0,
      emptyWorld\<lparr>fixappstore := [[91, 68] \<mapsto> 0],
                 fixapps := [freshHandle\<lparr>chksum := [91, 68]\<rparr>]\<rparr>)"
    by (simp add: readFails_def standIn_def GetOrCreateFixApp_def createChecksum_def
        emptyWorld_def GetSettings_def createMessageStoreFactory_def createLogFactory_def
        newEngine_def freshHandle_def)
  finally show ?thesis using sum by simp
qed

subsection \<open>The adapter: \<^verbatim>\<open>Connect\<close>, the callbacks, \<^verbatim>\<open>Read\<close> and \<^verbatim>\<open>Close\<close>\<close>

lemma quickfixInputFromParsed_standIn:
  "quickfixInputFromParsed standIn standInConf = Inr acceptorInput"
  by (simp add: quickfixInputFromParsed_def standInConf_def quickfixInputApplicationType_def
      quickfixInputConfigFile_def quickfixInputMsgStoreType_def quickfixInputLoggerType_def
      GetSettings_def standIn_def acceptorInput_def)

lemma GetOrCreateFixApp_startFails:
  "GetOrCreateFixApp startFails acceptorType messageStoreMem logFactoryScreen 0 ''fix.cfg'' emptyWorld
     = (Inr 0, freshWorld)"
  by (simp add: GetOrCreateFixApp_def createChecksum_def startFails_def standIn_def emptyWorld_def
      GetSettings_def createMessageStoreFactory_def createLogFactory_def newEngine_def
      freshWorld_def freshHandle_def cfgBytes_def)

lemma Connect_standIn:
  "Connect standIn 0 acceptorInput (emptyWorld :: 64 word world)
     = Returns (None, connectedInput, connectedWorld)"
  by (simp add: Connect_def acceptorInput_def connectedInput_def connectedWorld_def
        GetOrCreateFixApp_standIn [unfolded acceptorType_def messageStoreMem_def logFactoryScreen_def]
        acceptorType_def messageStoreMem_def logFactoryScreen_def)
     (simp add: Start_def fixapp_Start_def freshWorld_def freshHandle_def emptyWorld_def
        lastHolderWorld_def standIn_def started_neq_stopped[symmetric])

text \<open>
  C9. When \<^verbatim>\<open>GetOrCreateFixApp\<close> returns a handle and \<^verbatim>\<open>Start\<close> on it returns an
  error, \<^verbatim>\<open>Connect\<close> returns nil: the adapter has its channel, the world is the one
  \<^verbatim>\<open>Start\<close> left, and the error is dropped.
\<close>

theorem Connect_discards_the_error_of_Start:
  assumes "GetOrCreateFixApp E (appType q) (storeType q) (logType q) this (config q) w = (Inr a, w1)"
    and "Start E a (w1\<lparr>chans := chans w1 @ [\<lparr>closed = False, sending = []\<rparr>]\<rparr>) = Returns (Some e, w2)"
  shows "Connect E this q w = Returns (None, q\<lparr>eventChan := Some (length (chans w1))\<rparr>, w2)"
  using assms by (simp add: Connect_def)

theorem Connect_discards_the_error_of_Start_witness:
  "\<exists>w2. Start startFails 0 ((freshWorld :: 64 word world)\<lparr>chans := [\<lparr>closed = False, sending = []\<rparr>]\<rparr>)
           = Returns (Some (LibErr ''address already in use''), w2)
      \<and> Connect startFails 0 acceptorInput emptyWorld
           = Returns (None, acceptorInput\<lparr>eventChan := Some 0\<rparr>, w2)"
proof -
  let ?w2 = "(lastHolderWorld :: 64 word world)\<lparr>chans := [\<lparr>closed = False, sending = []\<rparr>]\<rparr>"
  have got: "GetOrCreateFixApp startFails (appType acceptorInput) (storeType acceptorInput)
               (logType acceptorInput) 0 (config acceptorInput) emptyWorld
             = (Inr 0, freshWorld :: 64 word world)"
    by (simp add: acceptorInput_def GetOrCreateFixApp_startFails)
  have started: "Start startFails 0
        ((freshWorld :: 64 word world)\<lparr>chans := chans (freshWorld :: 64 word world) @ [\<lparr>closed = False, sending = []\<rparr>]\<rparr>)
      = Returns (Some (LibErr ''address already in use''), ?w2)"
    by (simp add: Start_def fixapp_Start_def freshWorld_def freshHandle_def emptyWorld_def
        lastHolderWorld_def startFails_def standIn_def started_neq_stopped[symmetric])
  have "Connect startFails 0 acceptorInput emptyWorld
          = Returns (None, acceptorInput\<lparr>eventChan := Some (length (chans (freshWorld :: 64 word world)))\<rparr>, ?w2)"
    using got started by (rule Connect_discards_the_error_of_Start)
  then show ?thesis using started by (simp add: freshWorld_def emptyWorld_def)
qed

lemma quickfixInputFromParsed_maps:
  assumes "quickfixInputFromParsed E conf = Inr q"
  shows "appDictionaries q = None \<and> transportDictionaries q = None"
  using assms by (auto simp add: quickfixInputFromParsed_def split: sum.splits)

lemma Connect_maps:
  assumes "Connect E this q w = Returns (err, q', w')"
  shows "appDictionaries q' = appDictionaries q \<and> transportDictionaries q' = transportDictionaries q"
  using assms by (auto simp add: Connect_def split: sum.splits prod.splits outcome.splits)

lemma OnCreate_nil_map:
  assumes "appDictionaries q = None"
    and "Settings_SessionSettings E (settings q) sessionID = Some session"
    and "SessionSettings_HasSetting E session ''DataDictionary''"
    and "SessionSettings_Setting E session ''DataDictionary'' = Inr dictFile"
    and "datadictionary_Parse E dictFile = Inr dict"
  shows "OnCreate E q sessionID w = Panics AssignmentToEntryInNilMap"
  using assms by (simp add: OnCreate_def cacheDataDictionary_def assignDict_def)

text \<open>
  C10. An adapter as \<^verbatim>\<open>quickfixInputFromParsed\<close> returns it, also after
  \<^verbatim>\<open>Connect\<close>, has both dictionary maps nil. For a session whose settings declare a
  \<^verbatim>\<open>DataDictionary\<close> that parses, \<^verbatim>\<open>OnCreate\<close> panics with an assignment to an
  entry in a nil map.
\<close>

theorem OnCreate_assigns_into_a_nil_map:
  assumes "quickfixInputFromParsed E0 conf = Inr q"
    and "q' = q \<or> (\<exists>err w0 w1. Connect E1 this q w0 = Returns (err, q', w1))"
    and "Settings_SessionSettings E (settings q') sessionID = Some session"
    and "SessionSettings_HasSetting E session ''DataDictionary''"
    and "SessionSettings_Setting E session ''DataDictionary'' = Inr dictFile"
    and "datadictionary_Parse E dictFile = Inr dict"
  shows "appDictionaries q' = None \<and> transportDictionaries q' = None
       \<and> OnCreate E q' sessionID w = Panics AssignmentToEntryInNilMap"
proof -
  have q: "appDictionaries q = None \<and> transportDictionaries q = None"
    using assms(1) by (rule quickfixInputFromParsed_maps)
  have q': "appDictionaries q' = None \<and> transportDictionaries q' = None"
    using assms(2) q by (auto dest: Connect_maps)
  then have "OnCreate E q' sessionID w = Panics AssignmentToEntryInNilMap"
    using assms(3-6) by (simp add: OnCreate_nil_map)
  then show ?thesis using q' by simp
qed

theorem OnCreate_assigns_into_a_nil_map_witness:
  "\<exists>q' w'. Connect standIn 0 acceptorInput (emptyWorld :: 64 word world) = Returns (None, q', w')
      \<and> OnCreate standIn q' S1 w' = Panics AssignmentToEntryInNilMap"
proof -
  let ?q = "acceptorInput\<lparr>eventChan := Some 0\<rparr>"
  let ?w = "(lastHolderWorld :: 64 word world)\<lparr>chans := [\<lparr>closed = False, sending = []\<rparr>]\<rparr>"
  have c: "Connect standIn 0 acceptorInput (emptyWorld :: 64 word world) = Returns (None, ?q, ?w)"
    by (simp add: Connect_def acceptorInput_def GetOrCreateFixApp_standIn [unfolded acceptorType_def messageStoreMem_def logFactoryScreen_def]
        acceptorType_def messageStoreMem_def logFactoryScreen_def)
       (simp add: Start_def fixapp_Start_def freshWorld_def freshHandle_def emptyWorld_def
        lastHolderWorld_def standIn_def started_neq_stopped[symmetric])
  then have reach: "?q = acceptorInput \<or>
      (\<exists>err w0 w1. Connect standIn 0 acceptorInput (w0 :: 64 word world) = Returns (err, ?q, w1))"
    by blast
  have "appDictionaries ?q = None \<and> transportDictionaries ?q = None
       \<and> OnCreate standIn ?q S1 ?w = Panics AssignmentToEntryInNilMap"
    using quickfixInputFromParsed_standIn reach
    by (rule OnCreate_assigns_into_a_nil_map [where session = 0 and dictFile = "''FIX44.xml''" and dict = 8])
       (simp_all add: standIn_def)
  then show ?thesis using c by blast
qed

lemma push_message:
  assumes "p < length (messages w)"
    and "Message_CopyInto E (buffers w) (messages w ! p) (quickfix_NewMessage E) = (msg, bs)"
  shows "push E q sid t (Some p) w =
           send (eventChan q)
             \<lparr>sessionId = zeroSessionID, eventType = t, message = Some (length (messages w))\<rparr>
             (w\<lparr>messages := messages w @ [msg], buffers := bs\<rparr>)"
  using assms by (simp add: push_def NewQuickfixEvent_def)

text \<open>
  C8. In every call of one of the four callbacks that carry a message, with a message
  that is not nil, the event handed to the channel is the one \<^verbatim>\<open>NewQuickfixEvent\<close>
  builds. Its payload is not the reference the engine passed: it is a message that did
  not exist before the call, allocated for the event, and its content is what the
  library's \<^verbatim>\<open>CopyInto\<close> wrote into it from the engine's message. Every message that
  existed, the engine's among them, is the same message with the same fields as before.
\<close>

theorem payload_is_a_fresh_copy:
  assumes "cb \<in> {ToAdmin, ToApp, FromAdmin, FromApp}"
    and "p < length (messages w)"
  shows "\<exists>ev w0 p'. NewQuickfixEvent E sessionID (eventType ev) (Some p) w = Returns (ev, w0)
      \<and> cb E q (Some p) sessionID w = send (eventChan q) ev w0
      \<and> message ev = Some p'
      \<and> p' \<noteq> p \<and> \<not> p' < length (messages w) \<and> p' < length (messages w0)
      \<and> (messages w0 ! p', buffers w0)
            = Message_CopyInto E (buffers w) (messages w ! p) (quickfix_NewMessage E)
      \<and> (\<forall>i < length (messages w). messages w0 ! i = messages w ! i)"
proof -
  from assms(1) obtain t where cb: "cb E q (Some p) sessionID w = push E q sessionID t (Some p) w"
    by (auto simp add: ToAdmin_def ToApp_def FromAdmin_def FromApp_def)
  obtain msg bs where copy:
    "Message_CopyInto E (buffers w) (messages w ! p) (quickfix_NewMessage E) = (msg, bs)"
    by (cases "Message_CopyInto E (buffers w) (messages w ! p) (quickfix_NewMessage E)")
  let ?ev = "\<lparr>sessionId = zeroSessionID, eventType = t, message = Some (length (messages w))\<rparr>"
  let ?w0 = "w\<lparr>messages := messages w @ [msg], buffers := bs\<rparr>"
  have new: "NewQuickfixEvent E sessionID (eventType ?ev) (Some p) w = Returns (?ev, ?w0)"
    using assms(2) copy by (simp add: NewQuickfixEvent_def)
  have sent: "cb E q (Some p) sessionID w = send (eventChan q) ?ev ?w0"
    using cb push_message [OF assms(2) copy] by simp
  have payload: "message ?ev = Some (length (messages w))" by simp
  have fresh: "length (messages w) \<noteq> p" "\<not> length (messages w) < length (messages w)"
    "length (messages w) < length (messages ?w0)"
    using assms(2) by simp_all
  have copied: "(messages ?w0 ! length (messages w), buffers ?w0)
                = Message_CopyInto E (buffers w) (messages w ! p) (quickfix_NewMessage E)"
    using copy by simp
  have kept: "\<forall>i < length (messages w). messages ?w0 ! i = messages w ! i"
    by (simp add: nth_append)
  show ?thesis
    using new sent payload fresh copied kept by blast
qed

theorem payload_is_a_fresh_copy_witness:
  "\<exists>w' ev. ToApp standIn connectedInput (Some 0) S1 (engineWorld :: 64 word world) = Returns w'
      \<and> sending (chans w' ! 0) = [ev] \<and> message ev = Some 1
      \<and> messages w' = [engineMessage, engineMessage]"
proof -
  let ?w = "engineWorld :: 64 word world"
  have "ToApp \<in> {ToAdmin, ToApp, FromAdmin, FromApp :: env \<Rightarrow> quickfixInput \<Rightarrow> maddr option \<Rightarrow> SessionID \<Rightarrow> 64 word world \<Rightarrow> 64 word world outcome}"
    by simp
  moreover have "0 < length (messages ?w)" by (simp add: engineWorld_def)
  ultimately have "\<exists>ev w0 p'. NewQuickfixEvent standIn S1 (eventType ev) (Some 0) ?w = Returns (ev, w0)
      \<and> ToApp standIn connectedInput (Some 0) S1 ?w = send (eventChan connectedInput) ev w0
      \<and> message ev = Some p'
      \<and> p' \<noteq> 0 \<and> \<not> p' < length (messages ?w) \<and> p' < length (messages w0)
      \<and> (messages w0 ! p', buffers w0)
            = Message_CopyInto standIn (buffers ?w) (messages ?w ! 0) (quickfix_NewMessage standIn)
      \<and> (\<forall>i < length (messages ?w). messages w0 ! i = messages ?w ! i)"
    by (rule payload_is_a_fresh_copy)
  then obtain ev w0 p' where f:
    "NewQuickfixEvent standIn S1 (eventType ev) (Some 0) ?w = Returns (ev, w0)"
    "ToApp standIn connectedInput (Some 0) S1 ?w = send (eventChan connectedInput) ev w0"
    "message ev = Some p'"
    by blast
  from f(1) have w0: "w0 = ?w\<lparr>messages := [engineMessage, engineMessage], buffers := engineBuffers\<rparr>"
    and ev: "\<lparr>sessionId = zeroSessionID, eventType = eventType ev, message = Some (Suc 0)\<rparr> = ev"
    by (simp_all add: NewQuickfixEvent_def engineWorld_def standIn_def)
  from arg_cong [OF ev, of message] have m: "message ev = Some 1" by simp
  let ?w' = "w0\<lparr>chans := [\<lparr>closed = False, sending = [ev]\<rparr>]\<rparr>"
  have "ToApp standIn connectedInput (Some 0) S1 ?w = Returns ?w'"
    using f(2) w0
    by (simp add: send_def connectedInput_def engineWorld_def connectedWorld_def)
  moreover have "sending (chans ?w' ! 0) = [ev]" by simp
  moreover have "messages ?w' = [engineMessage, engineMessage]" using w0 by simp
  ultimately show ?thesis using m by blast
qed

text \<open>
  What the theorem leaves open. The payload is another message, but its fields refer to
  whatever buffers \<^verbatim>\<open>CopyInto\<close> made them refer to. With a \<^verbatim>\<open>CopyInto\<close> that copies
  the references, as the one of the stand-in environment does, the payload reads the
  engine's own bytes: when the engine rewrites a buffer after the callback, a reader of
  the payload sees the new bytes.
\<close>

lemma a_payload_that_shares_buffers_follows_the_engine:
  "\<exists>w'. ToApp standIn connectedInput (Some 0) S1 (engineWorld :: 64 word world) = Returns w'
      \<and> contentOf w' (Some 1) = Some [(35, [68]), (11, [111, 114, 100, 101, 114, 45, 49])]
      \<and> contentOf (w'\<lparr>buffers := (buffers w')[0 := [70]]\<rparr>) (Some 1)
           = Some [(35, [70]), (11, [111, 114, 100, 101, 114, 45, 49])]"
  by (simp add: ToApp_def push_def NewQuickfixEvent_def send_def engineWorld_def
      connectedWorld_def connectedInput_def standIn_def engineMessage_def engineBuffers_def
      contentOf_def valueAt_def)

lemma OnLogon_connected:
  assumes "eventChan q = Some c" and "c < length (chans w)" and "\<not> closed (chans w ! c)"
  shows "OnLogon E q sessionID w =
           Returns (w\<lparr>chans := (chans w)[c := (chans w ! c)\<lparr>sending := sending (chans w ! c) @
                        [\<lparr>sessionId = zeroSessionID, eventType = logonEvent, message = None\<rparr>]\<rparr>]\<rparr>)"
  using assms by (simp add: OnLogon_def push_def NewQuickfixEvent_def send_def)

text \<open>
  C5. The claim: after \<^verbatim>\<open>Connect\<close> and a logon callback for session S1, \<^verbatim>\<open>Read\<close>
  returns a message whose metadata give the event kind \<^verbatim>\<open>logon\<close> and the session S1.
  The event kind is reported. The session is not: \<^verbatim>\<open>NewQuickfixEvent\<close> drops the
  identifier it is given, so for every session the metadata carry the rendering of the
  zero \<^verbatim>\<open>SessionID\<close>.
\<close>

theorem Read_after_OnLogon_reports_the_zero_SessionID:
  assumes "eventChan q = Some c" and "c < length (chans w)"
    and "\<not> closed (chans w ! c)" and "sending (chans w ! c) = []"
    and "Message_ToJSON E None True (lookupDict (appDictionaries q) zeroSessionID) = Returns json"
  shows "\<exists>w1 m w2. OnLogon E q sessionID w = Returns w1
      \<and> Read E q None pickCtx w1 = Returns (Inr m, q, w2)
      \<and> meta m ''quickfix_event'' = Some logonEvent
      \<and> meta m ''quickfix_session_id'' = Some (SessionID_String E zeroSessionID)"
proof -
  let ?ev = "\<lparr>sessionId = zeroSessionID, eventType = logonEvent, message = None\<rparr>"
  let ?w1 = "w\<lparr>chans := (chans w)[c := (chans w ! c)\<lparr>sending := sending (chans w ! c) @ [?ev]\<rparr>]\<rparr>"
  have 1: "OnLogon E q sessionID w = Returns ?w1"
    using assms(1-3) by (rule OnLogon_connected)
  have sel: "selectRead (chans ?w1 ! c) None pickCtx = Received ?ev"
    using assms(2,4) by (simp add: selectRead_def)
  have "\<exists>m w2. Read E q None pickCtx ?w1 = Returns (Inr m, q, w2)
      \<and> meta m ''quickfix_event'' = Some logonEvent
      \<and> meta m ''quickfix_session_id'' = Some (SessionID_String E zeroSessionID)"
    using assms(1,2,5) sel by (simp add: Read_def contentOf_def)
  then show ?thesis using 1 by blast
qed

theorem Read_after_OnLogon_reports_the_zero_SessionID_witness:
  "Connect standIn 0 acceptorInput (emptyWorld :: 64 word world)
     = Returns (None, connectedInput, connectedWorld)
   \<and> (\<exists>w1 m q' w2. OnLogon standIn connectedInput S1 (connectedWorld :: 64 word world) = Returns w1
          \<and> Read standIn connectedInput None False w1 = Returns (Inr m, q', w2)
          \<and> meta m ''quickfix_event'' = Some ''logon''
          \<and> meta m ''quickfix_session_id'' = Some '':->''
          \<and> SessionID_String standIn S1 = ''FIX.4.4:S1->T1'')"
proof -
  have "\<exists>w1 m w2. OnLogon standIn connectedInput S1 (connectedWorld :: 64 word world) = Returns w1
      \<and> Read standIn connectedInput None False w1 = Returns (Inr m, connectedInput, w2)
      \<and> meta m ''quickfix_event'' = Some logonEvent
      \<and> meta m ''quickfix_session_id'' = Some (SessionID_String standIn zeroSessionID)"
    by (rule Read_after_OnLogon_reports_the_zero_SessionID [where c = 0 and json = "[]"])
       (simp_all add: connectedInput_def connectedWorld_def standIn_def)
  moreover have "SessionID_String standIn zeroSessionID = '':->''"
    by (simp add: standIn_def zeroSessionID_def)
  moreover have "SessionID_String standIn S1 = ''FIX.4.4:S1->T1''"
    by (simp add: standIn_def S1_def zeroSessionID_def)
  ultimately have "\<exists>w1 m q' w2.
        OnLogon standIn connectedInput S1 (connectedWorld :: 64 word world) = Returns w1
      \<and> Read standIn connectedInput None False w1 = Returns (Inr m, q', w2)
      \<and> meta m ''quickfix_event'' = Some ''logon''
      \<and> meta m ''quickfix_session_id'' = Some '':->''
      \<and> SessionID_String standIn S1 = ''FIX.4.4:S1->T1''"
    by (auto simp add: logonEvent_def)
  then show ?thesis using Connect_standIn by simp
qed

text \<open>
  C6. The claim: \<^verbatim>\<open>Close\<close> stops the engine before it closes the event channel.
  In every execution of \<^verbatim>\<open>Close\<close> that returns, closing the channel is the first
  thing it does; a stop of the engine, when there is one, comes after it.
\<close>

theorem Close_closes_the_channel_before_it_stops_the_engine:
  assumes "Close E this q w = Returns (err, w')"
  shows "\<exists>c rest. eventChan q = Some c
      \<and> calls w' = calls w @ ChanClose c # rest
      \<and> (rest = [] \<or> (\<exists>a. rest = [AcceptorStop a]) \<or> (\<exists>i. rest = [InitiatorStop i]))"
proof -
  from assms obtain c where c: "eventChan q = Some c" "c < length (chans w)"
    "\<not> closed (chans w ! c)" "sending (chans w ! c) = []"
    by (auto simp add: Close_def split: option.splits if_splits list.splits)
  let ?w0 = "w\<lparr>chans := (chans w)[c := (chans w ! c)\<lparr>closed := True\<rparr>], calls := calls w @ [ChanClose c]\<rparr>"
  obtain r w1 where g: "GetOrCreateFixApp E (appType q) (storeType q) (logType q) this (config q) ?w0 = (r, w1)"
    by (cases "GetOrCreateFixApp E (appType q) (storeType q) (logType q) this (config q) ?w0")
  have k: "calls w1 = calls ?w0"
    using g by (auto simp add: GetOrCreateFixApp_def split: sum.splits option.splits prod.splits)
  show ?thesis
  proof (cases r)
    case (Inl e)
    then have "w' = w1" using assms c g by (simp add: Close_def)
    then show ?thesis using c(1) k by simp
  next
    case (Inr a)
    then have "Stop a w1 = Returns w'"
      using assms c g by (simp add: Close_def split: outcome.splits)
    then have "calls w' = calls w1 \<or> (\<exists>x. calls w' = calls w1 @ [AcceptorStop x])
        \<or> (\<exists>y. calls w' = calls w1 @ [InitiatorStop y])"
      by (auto simp add: Stop_def fixapp_Stop_def split: if_splits option.splits)
    then show ?thesis using c(1) k by auto
  qed
qed

theorem Close_closes_the_channel_before_it_stops_the_engine_witness:
  "\<exists>w'. Close standIn 0 connectedInput (connectedWorld :: 64 word world) = Returns (None, w')
      \<and> calls w' = [AcceptorStart 11, ChanClose 0, AcceptorStop 11]"
proof -
  let ?w' = "(emptyWorld :: 64 word world)
       \<lparr>fixappstore := [cfgBytes \<mapsto> 0],
        fixapps := [freshHandle\<lparr>state := fixappstatestarted, refcount := 1, acceptor := None\<rparr>],
        calls := [AcceptorStart 11, ChanClose 0, AcceptorStop 11],
        chans := [\<lparr>closed = True, sending = []\<rparr>]\<rparr>"
  have c: "Close standIn 0 connectedInput (connectedWorld :: 64 word world) = Returns (None, ?w')"
    by (simp add: Close_def connectedInput_def connectedWorld_def acceptorInput_def lastHolderWorld_def
        emptyWorld_def GetOrCreateFixApp_def createChecksum_def standIn_def cfgBytes_def
        Stop_def fixapp_Stop_def freshHandle_def started_neq_stopped)
  from Close_closes_the_channel_before_it_stops_the_engine [OF c]
  obtain ch rest where "eventChan connectedInput = Some ch"
    "calls ?w' = calls (connectedWorld :: 64 word world) @ ChanClose ch # rest"
    by blast
  then have "calls ?w' = [AcceptorStart 11, ChanClose 0, AcceptorStop 11]" by simp
  then show ?thesis using c by blast
qed

end
